theory Spec2Isabelle
  imports Complex_Main "HOL-Library.Sublist" "HOL-Library.AList"
begin

section \<open>Python values and exceptions\<close>

text \<open>
  The streaming subsystem is Python.  Exceptions are values: \<open>Exc cls msg\<close> is an
  instance of a subclass of \<open>Exception\<close> with class name \<open>cls\<close> and message
  \<open>msg\<close>; \<open>KeyboardInterrupt\<close> and \<open>SystemExit\<close> derive from \<open>BaseException\<close>
  only, so an \<open>except Exception\<close> clause does not catch them.
\<close>

datatype py_exn = KeyboardInterrupt | SystemExit int | Exc string string

fun is_Exception :: "py_exn \<Rightarrow> bool" where
  "is_Exception (Exc cls msg) = True"
| "is_Exception KeyboardInterrupt = False"
| "is_Exception (SystemExit n) = False"

text \<open>What \<open>json.load\<close> returns: a JSON value.  Objects keep their pairs in file order.\<close>

datatype json =
    JNull
  | JBool bool
  | JNum int
  | JStr string
  | JArr "json list"
  | JObj "(string \<times> json) list"

text \<open>
  \<open>d.get(key, default)\<close> on the dict that \<open>json.load\<close> builds from an object: a key
  that occurs twice keeps its last value.
\<close>

definition dict_get :: "(string \<times> json) list \<Rightarrow> string \<Rightarrow> json \<Rightarrow> json" where
  "dict_get kvs k dflt = (case map_of (rev kvs) k of None \<Rightarrow> dflt | Some v \<Rightarrow> v)"


section \<open>Control-plane state files (utils/producer\_consumer/consumer\_utils.py)\<close>

text \<open>
  What a state file can hold, by what \<open>open(filepath, 'r')\<close> and \<open>json.load\<close> do with it:
  \<^item> \<open>Unreadable\<close>: the file cannot be opened or read, \<open>open\<close> or \<open>read\<close> raises an
    \<open>OSError\<close> (\<open>IOError\<close> is its alias; \<open>Exc ''IOError''\<close> stands for the class and its
    subclasses);
  \<^item> \<open>NotUtf8\<close>: bytes that are not valid UTF-8, decoding them raises
    \<open>UnicodeDecodeError\<close> (a \<open>ValueError\<close>);
  \<^item> \<open>Garbage\<close>: text that is not JSON, \<open>json.load\<close> raises \<open>JSONDecodeError\<close>;
  \<^item> \<open>TooDeep\<close>: JSON text nested deeper than the interpreter's recursion limit,
    \<open>json.load\<close> raises \<open>RecursionError\<close>;
  \<^item> \<open>Json j\<close>: JSON text that \<open>json.load\<close> turns into the value \<open>j\<close>.

  The state directory maps file names to contents.
\<close>

datatype file_content = Unreadable | NotUtf8 | Garbage | TooDeep | Json json

text \<open>\<open>with open(filepath, 'r') as f: json.load(f)\<close>\<close>

fun json_load :: "file_content \<Rightarrow> py_exn + json" where
  "json_load Unreadable = Inl (Exc ''IOError'' ''cannot open state file'')"
| "json_load NotUtf8 = Inl (Exc ''UnicodeDecodeError'' ''invalid start byte'')"
| "json_load Garbage = Inl (Exc ''JSONDecodeError'' ''Expecting value'')"
| "json_load TooDeep = Inl (Exc ''RecursionError'' ''maximum recursion depth exceeded'')"
| "json_load (Json j) = Inr j"

type_synonym state_dir = "string \<rightharpoonup> file_content"

definition state_filename :: "string \<Rightarrow> string \<Rightarrow> string \<Rightarrow> string" where
  "state_filename crypto model version =
     (if crypto = ''ALL'' \<and> model = ''producer'' then ''ALL_producer_main.json''
      else crypto @ ''_'' @ model @ ''_'' @ version @ ''.json'')"

text \<open>
  \<open>state_write(crypto, model, version, state, error_msg="")\<close>: the parameter
  \<open>error_msg\<close> is optional (\<open>None\<close> here stands for the omitted argument).  The file
  is opened with mode \<open>'w'\<close> and receives the dump of a freshly built dict.
\<close>

definition state_data :: "string \<Rightarrow> string \<Rightarrow> string \<Rightarrow> string \<Rightarrow> string \<Rightarrow> json" where
  "state_data crypto model version state error_msg =
     JObj [(''crypto'', JStr crypto), (''model'', JStr model), (''version'', JStr version),
           (''state'', JStr state), (''error_msg'', JStr error_msg)]"

definition state_write ::
  "state_dir \<Rightarrow> string \<Rightarrow> string \<Rightarrow> string \<Rightarrow> string \<Rightarrow> string option \<Rightarrow> state_dir" where
  "state_write dir crypto model version state error_msg =
     dir(state_filename crypto model version \<mapsto>
           Json (state_data crypto model version state
                   (case error_msg of None \<Rightarrow> [] | Some m \<Rightarrow> m)))"

text \<open>
  \<open>get_state_data\<close>: \<open>None\<close> for a missing file, otherwise what \<open>json.load\<close> returns;
  \<open>except (json.JSONDecodeError, IOError)\<close> turns these two exceptions into \<open>None\<close>.
\<close>

fun get_state_data_catches :: "py_exn \<Rightarrow> bool" where
  "get_state_data_catches (Exc cls msg) = (cls \<in> {''JSONDecodeError'', ''IOError''})"
| "get_state_data_catches e = False"

definition get_state_data ::
  "state_dir \<Rightarrow> string \<Rightarrow> string \<Rightarrow> string \<Rightarrow> py_exn + json option" where
  "get_state_data dir crypto model version =
     (case dir (state_filename crypto model version) of
        None \<Rightarrow> Inr None
      | Some c \<Rightarrow>
          (case json_load c of
             Inl e \<Rightarrow> if get_state_data_catches e then Inr None else Inl e
           | Inr j \<Rightarrow> Inr (Some j)))"

text \<open>
  \<open>state_checker\<close> first waits for the file.  Other processes create and remove state
  files while it waits, so the directory is a function of time (whole seconds): the loop
  tests \<open>os.path.exists\<close>, gives up once more than \<open>timeout\<close> seconds have passed since
  \<open>start\<close>, and otherwise sleeps one second.  The result is the number of seconds after
  which the file was seen, or \<open>None\<close> for the timeout.
\<close>

function wait_for_file :: "(nat \<Rightarrow> state_dir) \<Rightarrow> string \<Rightarrow> nat \<Rightarrow> nat \<Rightarrow> nat \<Rightarrow> nat option" where
  "wait_for_file env filename start timeout elapsed =
     (if env (start + elapsed) filename \<noteq> None then Some elapsed
      else if elapsed > timeout then None
      else wait_for_file env filename start timeout (Suc elapsed))"
  by pat_completeness auto
termination
  by (relation "measure (\<lambda>(env, filename, start, timeout, elapsed). Suc timeout - elapsed)") auto

declare wait_for_file.simps [simp del]

text \<open>
  The body of the \<open>try\<close>: open, \<open>json.load\<close>, then \<open>state_data.get("state", "unknown")\<close>.
  A JSON value that is not an object has no method \<open>get\<close>.
\<close>

fun state_get :: "json \<Rightarrow> py_exn + json" where
  "state_get (JObj kvs) = Inr (dict_get kvs ''state'' (JStr ''unknown''))"
| "state_get j = Inl (Exc ''AttributeError'' ''object has no attribute get'')"

definition read_state :: "file_content \<Rightarrow> py_exn + json" where
  "read_state c = (case json_load c of Inl e \<Rightarrow> Inl e | Inr j \<Rightarrow> state_get j)"

text \<open>\<open>except (json.JSONDecodeError, KeyError, IOError)\<close>\<close>

fun state_checker_catches :: "py_exn \<Rightarrow> bool" where
  "state_checker_catches (Exc cls msg) = (cls \<in> {''JSONDecodeError'', ''KeyError'', ''IOError''})"
| "state_checker_catches e = False"

text \<open>
  \<open>state_checker\<close>, started at time \<open>start\<close>: the value returned or the exception
  raised, and the seconds it took.  A file that disappears between the test and the
  \<open>open\<close> is an \<open>IOError\<close>, like \<open>Unreadable\<close>.
\<close>

definition state_checker ::
  "(nat \<Rightarrow> state_dir) \<Rightarrow> string \<Rightarrow> string \<Rightarrow> string \<Rightarrow> nat \<Rightarrow> nat \<Rightarrow> (py_exn + json) \<times> nat" where
  "state_checker env crypto model version timeout start =
     (let filename = state_filename crypto model version in
      case wait_for_file env filename start timeout 0 of
        None \<Rightarrow> (Inr (JStr ''unknown''), Suc timeout)
      | Some k \<Rightarrow>
          (case read_state (case env (start + k) filename of None \<Rightarrow> Unreadable | Some c \<Rightarrow> c) of
             Inl e \<Rightarrow> if state_checker_catches e then (Inr (JStr ''unknown''), k) else (Inl e, k)
           | Inr v \<Rightarrow> (Inr v, k)))"


section \<open>Producer main loop (utils/producer\_consumer/producer.py)\<close>

record candle =
  open_time :: int
  open_price :: "real option"
  high :: "real option"
  low :: "real option"
  close :: "real option"
  volume :: "real option"

text \<open>
  What one pass of the \<open>while True\<close> loop meets: the result of \<open>state_checker\<close>, of
  \<open>download_full_history\<close>, and whether \<open>bulk_insert_df\<close>, the CSV append and
  \<open>send_df_to_quix\<close> raise.
\<close>

record cycle_env =
  polled :: "py_exn + json"
  download :: "py_exn + candle list"
  db_insert :: "py_exn option"
  csv_write :: "py_exn option"
  kafka_send :: "py_exn option"

datatype event =
    StateWritten string
  | Slept nat
  | SleptToNextMinute
  | Fetched "int option"
  | Persisted nat
  | CsvAppended nat
  | Published nat
  | LoggedWarning
  | LoggedError

datatype loop_ctl = Break | Continue | Propagate py_exn

text \<open>
  The outer handlers of the loop body: \<open>except KeyboardInterrupt\<close> writes \<open>deleted\<close> and
  breaks, \<open>except Exception\<close> logs, sleeps ten seconds and continues; anything else
  leaves \<open>main\<close>.
\<close>

fun outer_handler :: "py_exn \<Rightarrow> int option \<Rightarrow> event list \<Rightarrow> loop_ctl \<times> int option \<times> event list" where
  "outer_handler KeyboardInterrupt last_time tr = (Break, last_time, tr @ [StateWritten ''deleted''])"
| "outer_handler (Exc cls msg) last_time tr = (Continue, last_time, tr @ [LoggedError, Slept 10])"
| "outer_handler (SystemExit n) last_time tr = (Propagate (SystemExit n), last_time, tr)"

text \<open>
  The handler of the inner \<open>try\<close> around fetch, persist and publish
  (\<open>except Exception as e: logger.error(...); time.sleep(10); continue\<close>).
\<close>

definition inner_handler :: "py_exn \<Rightarrow> int option \<Rightarrow> event list \<Rightarrow> loop_ctl \<times> int option \<times> event list" where
  "inner_handler e last_time tr =
     (if is_Exception e then (Continue, last_time, tr @ [LoggedError, Slept 10])
      else outer_handler e last_time tr)"

definition max_open_time :: "candle list \<Rightarrow> int" where
  "max_open_time df = fold max (map open_time df) (open_time (hd df))"

text \<open>The statements after a successful persist: CSV append, publish, cursor, sleep.\<close>

definition after_persist ::
  "cycle_env \<Rightarrow> candle list \<Rightarrow> int option \<Rightarrow> event list \<Rightarrow> loop_ctl \<times> int option \<times> event list" where
  "after_persist env new_df last_time tr =
     (case (case csv_write env of
              None \<Rightarrow> Inr (tr @ [CsvAppended (length new_df)])
            | Some e \<Rightarrow> if is_Exception e then Inr (tr @ [LoggedError]) else Inl e) of
        Inl e \<Rightarrow> inner_handler e last_time tr
      | Inr tr1 \<Rightarrow>
          (case kafka_send env of
             Some e \<Rightarrow> inner_handler e last_time tr1
           | None \<Rightarrow>
               (Continue, Some (max_open_time new_df),
                tr1 @ [Published (length new_df), SleptToNextMinute])))"

text \<open>The inner \<open>try\<close>: fetch, filter, persist.\<close>

definition fetch_and_publish ::
  "cycle_env \<Rightarrow> int option \<Rightarrow> event list \<Rightarrow> loop_ctl \<times> int option \<times> event list" where
  "fetch_and_publish env last_time tr =
     (let tr1 = tr @ [Fetched (map_option (\<lambda>t. t + 60) last_time)] in
      case download env of
        Inl e \<Rightarrow> inner_handler e last_time tr1
      | Inr df \<Rightarrow>
          if df = [] then (Continue, last_time, tr1 @ [Slept 60])
          else
            let new_df = (case last_time of
                            None \<Rightarrow> df
                          | Some t \<Rightarrow> filter (\<lambda>c. open_time c > t) df) in
            if new_df = [] then (Continue, last_time, tr1 @ [Slept 60])
            else
              (case db_insert env of
                 Some e \<Rightarrow>
                   inner_handler e last_time (if is_Exception e then tr1 @ [LoggedError, LoggedError] else tr1)
               | None \<Rightarrow> after_persist env new_df last_time (tr1 @ [Persisted (length new_df)])))"

text \<open>One pass of the loop body.  Times are seconds; a candle covers 60 of them.\<close>

definition producer_cycle :: "cycle_env \<Rightarrow> int option \<Rightarrow> loop_ctl \<times> int option \<times> event list" where
  "producer_cycle env last_time =
     (case polled env of
        Inl e \<Rightarrow> outer_handler e last_time []
      | Inr state \<Rightarrow>
          if state = JStr ''delete'' then (Break, last_time, [StateWritten ''deleted''])
          else if state = JStr ''pause'' then (Continue, last_time, [Slept 10])
          else if state \<noteq> JStr ''running'' \<and> state \<noteq> JStr ''start''
            then (Continue, last_time, [LoggedWarning, Slept 10])
          else fetch_and_publish env last_time
                 (if state = JStr ''start'' then [StateWritten ''running''] else []))"

text \<open>
  The process after its initialisation: it runs the loop over what the successive passes
  meet.  \<open>break\<close> leaves the loop, \<open>main\<close> returns and the interpreter exits with status 0;
  a propagating \<open>SystemExit n\<close> exits with status \<open>n\<close>, a propagating
  \<open>KeyboardInterrupt\<close> with status 130; while passes remain to be described the process
  is still polling.
\<close>

datatype run = Exited int | Polling

fun producer_loop :: "cycle_env list \<Rightarrow> int option \<Rightarrow> event list \<Rightarrow> run \<times> event list" where
  "producer_loop [] last_time tr = (Polling, tr)"
| "producer_loop (env # envs) last_time tr =
     (case producer_cycle env last_time of
        (Break, last_time', tr') \<Rightarrow> (Exited 0, tr @ tr')
      | (Continue, last_time', tr') \<Rightarrow> producer_loop envs last_time' (tr @ tr')
      | (Propagate (SystemExit n), last_time', tr') \<Rightarrow> (Exited n, tr @ tr')
      | (Propagate e, last_time', tr') \<Rightarrow> (Exited 130, tr @ tr'))"


section \<open>Document store (utils/database/db.py)\<close>

text \<open>
  One Firestore collection (the one named by \<open>table_name.lower()\<close>).  A document is a
  dict of fields; timestamps are whole seconds (UTC).  Every writer derives the document
  id from the candle's time with \<open>pd.to_datetime(open_time).isoformat()\<close>, which is
  one-to-one on UTC timestamps, so the id is represented by the timestamp itself.
\<close>

datatype fvalue = FNull | FTime int | FNum real | FVec "real list"

type_synonym doc = "string \<rightharpoonup> fvalue"
type_synonym doc_id = int

datatype write_op = SetMerge doc_id doc | Update doc_id doc | Delete doc_id

text \<open>
  The client's observable behaviour: the outcome of each coming \<open>batch.commit()\<close>
  (\<open>Some e\<close>: the service rejects it with \<open>e\<close>; once the list is used up commits are
  accepted), the commits attempted so far with their sizes, and the milliseconds spent in
  \<open>time.sleep\<close>.
\<close>

datatype db_event = Committed nat | CommitFailed nat

record firestore =
  docs :: "(doc_id \<times> doc) list"
  faults :: "py_exn option list"
  journal :: "db_event list"
  slept :: nat

text \<open>
  One write.  \<open>set(..., merge=True)\<close> creates the document or overrides the given
  fields; \<open>update\<close> requires the document to exist; \<open>delete\<close> of an absent document
  succeeds.
\<close>

fun apply_op :: "write_op \<Rightarrow> (doc_id \<times> doc) list \<Rightarrow> py_exn + (doc_id \<times> doc) list" where
  "apply_op (SetMerge k d) ds =
     Inr (AList.update k (case map_of ds k of None \<Rightarrow> d | Some old \<Rightarrow> old ++ d) ds)"
| "apply_op (Update k d) ds =
     (case map_of ds k of
        None \<Rightarrow> Inl (Exc ''NotFound'' ''No document to update'')
      | Some old \<Rightarrow> Inr (AList.update k (old ++ d) ds))"
| "apply_op (Delete k) ds = Inr (AList.delete k ds)"

fun apply_ops :: "write_op list \<Rightarrow> (doc_id \<times> doc) list \<Rightarrow> py_exn + (doc_id \<times> doc) list" where
  "apply_ops [] ds = Inr ds"
| "apply_ops (w # ws) ds = (case apply_op w ds of Inl e \<Rightarrow> Inl e | Inr ds' \<Rightarrow> apply_ops ws ds')"

text \<open>A batch is atomic: a rejected commit leaves the collection as it was.\<close>

definition commit :: "write_op list \<Rightarrow> firestore \<Rightarrow> py_exn option \<times> firestore" where
  "commit batch st =
     (case faults st of
        Some e # rest \<Rightarrow>
          (Some e, st\<lparr>faults := rest, journal := journal st @ [CommitFailed (length batch)]\<rparr>)
      | _ \<Rightarrow>
          (case apply_ops batch (docs st) of
             Inl e \<Rightarrow>
               (Some e, st\<lparr>faults := tl (faults st),
                            journal := journal st @ [CommitFailed (length batch)]\<rparr>)
           | Inr ds \<Rightarrow>
               (None, st\<lparr>docs := ds, faults := tl (faults st),
                         journal := journal st @ [Committed (length batch)]\<rparr>)))"

definition sleep_ms :: "nat \<Rightarrow> firestore \<Rightarrow> firestore" where
  "sleep_ms n st = st\<lparr>slept := slept st + n\<rparr>"

text \<open>\<open>str.lower()\<close> on ASCII letters.\<close>

definition lower_char :: "char \<Rightarrow> char" where
  "lower_char c =
     (let n = (of_char c :: nat) in if 65 \<le> n \<and> n \<le> 90 then char_of (n + 32) else c)"

text \<open>
  \<open>"quota" in str(e).lower() or "429" in str(e) or
  "ResourceExhausted" in str(type(e).__name__)\<close>, inside \<open>except Exception as e\<close>.
\<close>

fun is_rate_limited :: "py_exn \<Rightarrow> bool" where
  "is_rate_limited (Exc cls msg) =
     (sublist ''quota'' (map lower_char msg) \<or> sublist ''429'' msg
      \<or> sublist ''ResourceExhausted'' cls)"
| "is_rate_limited e = False"

definition fnum :: "real option \<Rightarrow> fvalue" where
  "fnum x = (case x of None \<Rightarrow> FNull | Some v \<Rightarrow> FNum v)"

text \<open>The \<open>doc_data\<close> dict of \<open>bulk_insert_df\<close>: exactly the six candle fields.\<close>

definition doc_data :: "'a candle_scheme \<Rightarrow> doc" where
  "doc_data row =
     [''open_time'' \<mapsto> FTime (open_time row), ''open'' \<mapsto> fnum (open_price row),
      ''high'' \<mapsto> fnum (high row), ''low'' \<mapsto> fnum (low row),
      ''close'' \<mapsto> fnum (close row), ''volume'' \<mapsto> fnum (volume row)]"

text \<open>
  The commit of a full batch inside the loop of \<open>bulk_insert_df\<close>: on a rate-limit error,
  sleep 60 seconds and commit the same batch once more.  The result is the batch to go on
  with (empty after a commit).
\<close>

definition commit_full_batch :: "write_op list \<Rightarrow> firestore \<Rightarrow> (py_exn + write_op list) \<times> firestore" where
  "commit_full_batch batch st =
     (case commit batch st of
        (None, st1) \<Rightarrow> (Inr [], st1)
      | (Some e, st1) \<Rightarrow>
          if is_Exception e \<and> is_rate_limited e then
            (case commit batch (sleep_ms 60000 st1) of
               (None, st2) \<Rightarrow> (Inr [], st2)
             | (Some e2, st2) \<Rightarrow> (Inl e2, st2))
          else (Inl e, st1))"

text \<open>
  The \<open>for idx, (_, row) in enumerate(df.iterrows(), 1)\<close> loop; \<open>batch_count\<close> is the
  length of the batch.
\<close>

fun insert_rows ::
  "'a candle_scheme list \<Rightarrow> nat \<Rightarrow> write_op list \<Rightarrow> firestore \<Rightarrow> (py_exn + write_op list) \<times> firestore" where
  "insert_rows [] idx batch st = (Inr batch, st)"
| "insert_rows (row # rows) idx batch st =
     (let batch1 = batch @ [SetMerge (open_time row) (doc_data row)] in
      case (if length batch1 \<ge> 500 then commit_full_batch batch1 st else (Inr batch1, st)) of
        (Inl e, st1) \<Rightarrow> (Inl e, st1)
      | (Inr batch2, st1) \<Rightarrow>
          insert_rows rows (Suc idx) batch2 (if idx mod 1000 = 0 then sleep_ms 100 st1 else st1))"

definition time_of :: "string \<Rightarrow> doc \<Rightarrow> int option" where
  "time_of fld d = (case d fld of Some (FTime t) \<Rightarrow> Some t | _ \<Rightarrow> None)"

text \<open>
  \<open>order_by(time, direction=DESCENDING).limit(1)\<close> and its ascending twin: the greatest
  and the least timestamp among the documents that have the field.
\<close>

definition latest_ts :: "string \<Rightarrow> (doc_id \<times> doc) list \<Rightarrow> int option" where
  "latest_ts fld ds =
     (case List.map_filter (\<lambda>kd. time_of fld (snd kd)) ds of
        [] \<Rightarrow> None
      | t # ts \<Rightarrow> Some (fold max ts t))"

definition earliest_ts :: "string \<Rightarrow> (doc_id \<times> doc) list \<Rightarrow> int option" where
  "earliest_ts fld ds =
     (case List.map_filter (\<lambda>kd. time_of fld (snd kd)) ds of
        [] \<Rightarrow> None
      | t # ts \<Rightarrow> Some (fold min ts t))"

definition days_180 :: int where
  "days_180 = 180 * 86400"

text \<open>The delete loop of \<open>_keep_last_365_days\<close>, over the ids the query returned.\<close>

fun delete_docs :: "doc_id list \<Rightarrow> write_op list \<Rightarrow> firestore \<Rightarrow> (py_exn + write_op list) \<times> firestore" where
  "delete_docs [] batch st = (Inr batch, st)"
| "delete_docs (k # ks) batch st =
     (let batch1 = batch @ [Delete k] in
      if length batch1 \<ge> 500 then
        (case commit batch1 st of
           (Some e, st1) \<Rightarrow> (Inl e, st1)
         | (None, st1) \<Rightarrow> delete_docs ks [] st1)
      else delete_docs ks batch1 st)"

text \<open>The closing \<open>if batch_count > 0: batch.commit()\<close> of the chunked loops.\<close>

definition commit_rest :: "write_op list \<Rightarrow> firestore \<Rightarrow> py_exn option \<times> firestore" where
  "commit_rest batch st = (if batch \<noteq> [] then commit batch st else (None, st))"

definition keep_last_365_days :: "string \<Rightarrow> firestore \<Rightarrow> py_exn option \<times> firestore" where
  "keep_last_365_days time st =
     (case latest_ts time (docs st) of
        None \<Rightarrow> (None, st)
      | Some latest \<Rightarrow>
          let cutoff = latest - days_180;
              docs_to_delete =
                filter (\<lambda>kd. case time_of time (snd kd) of None \<Rightarrow> False | Some t \<Rightarrow> t < cutoff)
                  (docs st)
          in case delete_docs (map fst docs_to_delete) [] st of
               (Inl e, st1) \<Rightarrow> (Some e, st1)
             | (Inr batch, st1) \<Rightarrow> commit_rest batch st1)"

definition bulk_insert_df :: "'a candle_scheme list \<Rightarrow> firestore \<Rightarrow> py_exn option \<times> firestore" where
  "bulk_insert_df df st =
     (if df = [] then (None, st)
      else
        case insert_rows df 1 [] st of
          (Inl e, st1) \<Rightarrow> (Some e, st1)
        | (Inr batch, st1) \<Rightarrow>
            (case commit_rest batch st1 of
               (Some e, st2) \<Rightarrow> (Some e, st2)
             | (None, st2) \<Rightarrow> keep_last_365_days ''open_time'' st2))"


text \<open>
  \<open>normalize_pred\<close> on a prediction that already is a list of floats (what
  \<open>get_predictions\<close> is declared to return) is \<open>list(x)\<close>.
\<close>

definition normalize_pred :: "real list \<Rightarrow> real list" where
  "normalize_pred x = x"

text \<open>\<open>dict(zip(keys, values))\<close>: a repeated key keeps its place and takes the last value.\<close>

definition py_dict :: "('k \<times> 'v) list \<Rightarrow> ('k \<times> 'v) list" where
  "py_dict kvs = fold (\<lambda>kv m. AList.update (fst kv) (snd kv) m) kvs []"

text \<open>The update loop of \<open>bulk_update_predictions\<close>: only documents that exist.\<close>

fun update_existing ::
  "(doc_id \<times> real list) list \<Rightarrow> string \<Rightarrow> write_op list \<Rightarrow> firestore \<Rightarrow> (py_exn + write_op list) \<times> firestore" where
  "update_existing [] col_name batch st = (Inr batch, st)"
| "update_existing ((k, pred) # rest) col_name batch st =
     (if map_of (docs st) k \<noteq> None then
        (let batch1 = batch @ [Update k [col_name \<mapsto> FVec pred]] in
         if length batch1 \<ge> 500 then
           (case commit batch1 st of
              (Some e, st1) \<Rightarrow> (Inl e, st1)
            | (None, st1) \<Rightarrow> update_existing rest col_name [] st1)
         else update_existing rest col_name batch1 st)
      else update_existing rest col_name batch st)"

definition bulk_update_predictions ::
  "string \<Rightarrow> string \<Rightarrow> (int \<times> real list) list \<Rightarrow> firestore \<Rightarrow> py_exn option \<times> firestore" where
  "bulk_update_predictions model version pred_df st =
     (let col_name = map lower_char model @ ''_'' @ version in
      case earliest_ts ''open_time'' (docs st) of
        None \<Rightarrow> (None, st)
      | Some first_time_in_db \<Rightarrow>
          let pred_df1 = filter (\<lambda>tp. fst tp \<ge> first_time_in_db) pred_df in
          if pred_df1 = [] then (None, st)
          else
            let pred_map = py_dict (map (\<lambda>tp. (fst tp, normalize_pred (snd tp))) pred_df1) in
            case update_existing pred_map col_name [] st of
              (Inl e, st1) \<Rightarrow> (Some e, st1)
            | (Inr batch, st1) \<Rightarrow> commit_rest batch st1)"

text \<open>The rows handed to \<open>bulk_insert_df\<close> for the missing times: a candle plus the
  column \<open>{model}_{version}\<close> added by \<open>insert_df[col_name] = ...map(pred_map)\<close>.\<close>

record pred_row = candle +
  pred_name :: string
  pred_value :: "real list option"

text \<open>
  The tail both paths of \<open>upsert_predictions\<close> share: find the times whose document does
  not exist, and insert their rows of \<open>original_df\<close>.
\<close>

definition insert_missing ::
  "int list \<Rightarrow> real list list \<Rightarrow> candle list \<Rightarrow> string \<Rightarrow> firestore \<Rightarrow> py_exn option \<times> firestore" where
  "insert_missing open_times predictions original_df col_name st =
     (let existing_times = filter (\<lambda>ot. map_of (docs st) ot \<noteq> None) open_times;
          missing_times = filter (\<lambda>ot. ot \<notin> set existing_times) open_times
      in if missing_times \<noteq> [] then
           let insert_df = filter (\<lambda>r. open_time r \<in> set missing_times) original_df;
               pred_map = py_dict (zip open_times predictions);
               insert_df1 = map (\<lambda>r. candle.extend r
                                      (pred_row.fields col_name (map_of pred_map (open_time r))))
                              insert_df
           in bulk_insert_df insert_df1 st
         else (None, st))"

text \<open>The update loop of the small-batch path: one \<open>batch.update\<close> per time.\<close>

fun update_rows ::
  "(doc_id \<times> real list) list \<Rightarrow> string \<Rightarrow> write_op list \<Rightarrow> firestore \<Rightarrow> (py_exn + write_op list) \<times> firestore" where
  "update_rows [] col_name batch st = (Inr batch, st)"
| "update_rows ((k, preds) # rest) col_name batch st =
     (let batch1 = batch @ [Update k [col_name \<mapsto> FVec (normalize_pred preds)]] in
      if length batch1 \<ge> 500 then
        (case commit batch1 st of
           (Some e, st1) \<Rightarrow> (Inl e, st1)
         | (None, st1) \<Rightarrow> update_rows rest col_name [] st1)
      else update_rows rest col_name batch1 st)"

definition upsert_predictions ::
  "string \<Rightarrow> string \<Rightarrow> int list \<Rightarrow> real list list \<Rightarrow> candle list \<Rightarrow> nat \<Rightarrow> firestore
     \<Rightarrow> py_exn option \<times> firestore" where
  "upsert_predictions model version open_times predictions original_df threshold st =
     (case keep_last_365_days ''open_time'' st of
        (Some e, st1) \<Rightarrow> (Some e, st1)
      | (None, st1) \<Rightarrow>
          if predictions = [] then (None, st1)
          else if length open_times \<noteq> length predictions then
            (Some (Exc ''ValueError'' ''Number of predictions must match number of open_times''), st1)
          else
            let model1 = map lower_char model;
                col_name = model1 @ ''_'' @ version
            in
            if length open_times > threshold then
              (let pred_df = zip open_times predictions in
               case (if pred_df \<noteq> [] then bulk_update_predictions model1 version pred_df st1
                     else (None, st1)) of
                 (Some e, st2) \<Rightarrow> (Some e, st2)
               | (None, st2) \<Rightarrow> insert_missing open_times predictions original_df col_name st2)
            else
              (case update_rows (zip open_times predictions) col_name [] st1 of
                 (Inl e, st2) \<Rightarrow> (Some e, st2)
               | (Inr batch, st2) \<Rightarrow>
                   (case commit_rest batch st2 of
                      (Some e, st3) \<Rightarrow> (Some e, st3)
                    | (None, st3) \<Rightarrow>
                        insert_missing open_times predictions original_df col_name st3)))"

text \<open>The keyword default \<open>threshold=100\<close>.\<close>

definition default_threshold :: nat where
  "default_threshold = 100"




text \<open>A candle for the examples.\<close>

definition sample_candle :: "int \<Rightarrow> candle" where
  "sample_candle t =
     \<lparr>open_time = t, open_price = Some 1, high = Some 2, low = Some 1, close = Some 2,
      volume = Some 5\<rparr>"

text \<open>Consecutive one-minute candles for the examples.\<close>

definition sample_rows :: "nat \<Rightarrow> candle list" where
  "sample_rows n = map (\<lambda>i. sample_candle (60 * int i)) [0..<n]"


section \<open>Consumer streaming loop (utils/producer\_consumer/consumer.py)\<close>

definition seq_len :: nat where
  "seq_len = 30"

text \<open>
  The value of a message after deserialisation: something falsy (\<open>None\<close>, an empty
  list), records without an \<open>open_time\<close> column, or a batch of candles (a single record
  is a batch of one).
\<close>

datatype message = Falsy | NoOpenTime | Batch "candle list"

text \<open>
  What one call of \<open>maybe_process\<close> meets: the result of \<open>state_checker\<close>, the feature
  rows \<open>preprocess_data\<close> computes (floating point, so a parameter), the result of
  \<open>get_predictions\<close>, and whether the CSV append raises.  The variables
  \<open>rolling_window\<close> and \<open>last_processed_time\<close> of the enclosing function and the
  document store are the state.
\<close>

record msg_env =
  state_poll :: "py_exn + json"
  preprocess_data :: "candle list \<Rightarrow> real list list"
  get_predictions :: "real list list \<Rightarrow> py_exn + real list list"
  csv_append :: "py_exn option"

record consumer_state =
  rolling_window :: "candle list"
  last_processed_time :: "int option"
  store :: firestore

datatype cons_event = ErrorLogged | Predicted | Upserted int | PredictionAppended int

text \<open>
  Both \<open>try\<close> blocks of \<open>maybe_process\<close> end in \<open>except Exception as e:
  logger.error(...)\<close> followed by \<open>return value\<close>; what is not an \<open>Exception\<close> leaves
  the function.
\<close>

definition handler ::
  "py_exn \<Rightarrow> consumer_state \<Rightarrow> cons_event list \<Rightarrow> py_exn option \<times> consumer_state \<times> cons_event list" where
  "handler e st ev = (if is_Exception e then (None, st, ev @ [ErrorLogged]) else (Some e, st, ev))"

text \<open>The inner \<open>try\<close>: predict, upsert, append to the CSV, advance the cursor.\<close>

definition score_and_store ::
  "string \<Rightarrow> string \<Rightarrow> msg_env \<Rightarrow> candle list \<Rightarrow> real list \<Rightarrow> consumer_state
     \<Rightarrow> py_exn option \<times> consumer_state \<times> cons_event list" where
  "score_and_store model version env window_df feature_vector st =
     (let last_time = open_time (last window_df) in
      case get_predictions env [feature_vector] of
        Inl e \<Rightarrow> handler e st []
      | Inr predictions \<Rightarrow>
          if predictions = [] then (None, st, [Predicted])
          else
            let prediction = hd predictions;
                original_df = [last window_df]
            in case upsert_predictions model version [last_time] [prediction] original_df
                      default_threshold (store st) of
                 (Some e, db) \<Rightarrow> handler e (st\<lparr>store := db\<rparr>) [Predicted]
               | (None, db) \<Rightarrow>
                   (case csv_append env of
                      Some e \<Rightarrow> handler e (st\<lparr>store := db\<rparr>) [Predicted, Upserted last_time]
                    | None \<Rightarrow>
                        (None, st\<lparr>store := db, last_processed_time := Some last_time\<rparr>,
                         [Predicted, Upserted last_time, PredictionAppended last_time])))"

definition maybe_process ::
  "string \<Rightarrow> string \<Rightarrow> msg_env \<Rightarrow> message \<Rightarrow> consumer_state
     \<Rightarrow> py_exn option \<times> consumer_state \<times> cons_event list" where
  "maybe_process model version env msg st =
     (case state_poll env of
        Inl e \<Rightarrow> handler e st []
      | Inr state \<Rightarrow>
          if state \<in> {JStr ''wait'', JStr ''pause'', JStr ''paused'', JStr ''delete''} then (None, st, [])
          else if state \<noteq> JStr ''running'' then (None, st, [])
          else
            (case msg of
               Falsy \<Rightarrow> (None, st, [])
             | NoOpenTime \<Rightarrow> (None, st, [])
             | Batch batch_data \<Rightarrow>
                 if batch_data = [] then (None, st, [])
                 else
                   let df = sort_key open_time batch_data;
                       df1 = (case last_processed_time st of
                                None \<Rightarrow> df
                              | Some t \<Rightarrow> filter (\<lambda>c. open_time c > t) df)
                   in if df1 = [] then (None, st, [])
                      else
                        let w1 = rolling_window st @ df1;
                            w2 = (if length w1 > seq_len then drop (length w1 - seq_len) w1 else w1);
                            st1 = st\<lparr>rolling_window := w2\<rparr>
                        in if length w2 < seq_len then (None, st1, [])
                           else
                             let window_df = drop (length w2 - seq_len) w2;
                                 features = preprocess_data env window_df
                             in if features = [] then (None, st1, [])
                                else score_and_store model version env window_df (last features) st1))"

text \<open>A consumer one candle short of a full window, for the examples.\<close>

definition example_env :: msg_env where
  "example_env =
     \<lparr>state_poll = Inr (JStr ''running''), preprocess_data = (\<lambda>w. [[0]]),
      get_predictions = (\<lambda>fs. Inr [[0.2, 0.3, 0.5]]), csv_append = None\<rparr>"

definition example_consumer :: consumer_state where
  "example_consumer =
     \<lparr>rolling_window = sample_rows 29, last_processed_time = Some 1680,
      store = \<lparr>docs = [(1740, doc_data (sample_candle 1740))], faults = [], journal = [],
               slept = 0\<rparr>\<rparr>"


section \<open>Graceful shutdown (utils/producer\_consumer/kill\_all.py)\<close>

definition SYMBOLS :: "string list" where
  "SYMBOLS = [''BTCUSDT'']"

definition MODELS :: "string list" where
  "MODELS = [''lightgbm'', ''tst'']"

definition VERSIONS :: "string list" where
  "VERSIONS = [''v1'', ''v2'', ''v3'']"

definition INDIVIDUAL_PROCESS_TIMEOUT :: nat where
  "INDIVIDUAL_PROCESS_TIMEOUT = 60"

definition TOTAL_TIMEOUT :: nat where
  "TOTAL_TIMEOUT = 600"

text \<open>
  What a run of the script meets:
  \<^item> \<open>logger_setup\<close>: the exception that the module-level statement
    \<open>logger = setup_logger("kill_all")\<close> raises, if any.  \<open>setup_logger\<close>
    (utils/producer\_consumer/logger.py) creates the log directory with
    \<open>log_path.parent.mkdir(parents=True, exist_ok=True)\<close> and opens the log file with
    \<open>logging.FileHandler(log_file)\<close>, neither inside a \<open>try\<close>: a log directory that
    cannot be created or written makes it raise an \<open>OSError\<close>;
  \<^item> \<open>signal_install\<close>: the exception that the two \<open>signal.signal\<close> calls at the top
    of \<open>main\<close>, before its \<open>try\<close>, raise, if any;
  \<^item> \<open>dir_at\<close>: the state directory as the other processes leave it at each second;
  \<^item> \<open>signal_at\<close>: the second at which a SIGTERM or SIGINT arrives (its handler clears
    \<open>_should_continue\<close>);
  \<^item> \<open>write_raises\<close>: the seconds at which \<open>state_write\<close> raises;
  \<^item> \<open>cleanup_raises\<close>: whether \<open>delete_all_states\<close> raises;
  \<^item> \<open>body_raises\<close>: an exception raised by the first statements of the \<open>try\<close> block
    (\<open>time.time()\<close>, \<open>logger.info\<close>), if any.

  Time passes in \<open>time.sleep\<close> only.
\<close>

record kill_env =
  logger_setup :: "py_exn option"
  signal_install :: "py_exn option"
  dir_at :: "nat \<Rightarrow> state_dir"
  signal_at :: "nat option"
  write_raises :: "nat \<Rightarrow> bool"
  cleanup_raises :: bool
  body_raises :: "py_exn option"

text \<open>
  The script's state: the clock, whether the script itself has cleared
  \<open>_should_continue\<close>, the entities it sent \<open>delete\<close> to, and whether the state files
  were cleaned up.
\<close>

record kill_state =
  now :: nat
  stopped :: bool
  sent :: "(string \<times> string \<times> string) list"
  cleaned :: bool

definition should_continue :: "kill_env \<Rightarrow> kill_state \<Rightarrow> bool" where
  "should_continue env ks =
     (\<not> stopped ks \<and> (case signal_at env of None \<Rightarrow> True | Some t \<Rightarrow> now ks < t))"

text \<open>
  The loop of \<open>wait_for_shutdown\<close>.  \<open>state_checker\<close> raises subclasses of \<open>Exception\<close>
  only (see \<open>read_state\<close>), which the \<open>except Exception\<close> of the loop catches; either
  way the pass sleeps five seconds.
\<close>

function wait_loop ::
  "kill_env \<Rightarrow> string \<Rightarrow> string \<Rightarrow> string \<Rightarrow> nat \<Rightarrow> nat \<Rightarrow> kill_state \<Rightarrow> bool \<times> kill_state" where
  "wait_loop env crypto model version timeout start_time ks =
     (if now ks - start_time < timeout \<and> should_continue env ks then
        (case state_checker (dir_at env) crypto model version 5 (now ks) of
           (Inr state, d) \<Rightarrow>
             if state = JStr ''deleted'' then (True, ks\<lparr>now := now ks + d\<rparr>)
             else if state = JStr ''unknown'' then (True, ks\<lparr>now := now ks + d\<rparr>)
             else wait_loop env crypto model version timeout start_time (ks\<lparr>now := now ks + d + 5\<rparr>)
         | (Inl e, d) \<Rightarrow>
             wait_loop env crypto model version timeout start_time (ks\<lparr>now := now ks + d + 5\<rparr>))
      else (False, ks))"
  by pat_completeness auto
termination
  by (relation "measure (\<lambda>(env, crypto, model, version, timeout, start_time, ks).
                           start_time + timeout - now ks)") auto

declare wait_loop.simps [simp del]

definition wait_for_shutdown ::
  "kill_env \<Rightarrow> string \<Rightarrow> string \<Rightarrow> string \<Rightarrow> nat \<Rightarrow> kill_state \<Rightarrow> bool \<times> kill_state" where
  "wait_for_shutdown env crypto model version timeout ks =
     (if \<not> should_continue env ks then (False, ks)
      else wait_loop env crypto model version timeout (now ks) ks)"

text \<open>
  The \<open>try\<close> block that sends \<open>delete\<close> to one entity: read its state, and unless it is
  \<open>deleted\<close> or \<open>unknown\<close> write \<open>delete\<close>; any exception is logged.
\<close>

definition send_delete :: "kill_env \<Rightarrow> string \<Rightarrow> string \<Rightarrow> string \<Rightarrow> kill_state \<Rightarrow> kill_state" where
  "send_delete env crypto model version ks =
     (case state_checker (dir_at env) crypto model version 5 (now ks) of
        (Inr state, d) \<Rightarrow>
          let ks1 = ks\<lparr>now := now ks + d\<rparr> in
          if state \<notin> {JStr ''deleted'', JStr ''unknown''} then
            (if write_raises env (now ks1) then ks1
             else ks1\<lparr>sent := sent ks1 @ [(crypto, model, version)]\<rparr>)
          else ks1
      | (Inl e, d) \<Rightarrow> ks\<lparr>now := now ks + d\<rparr>)"

text \<open>The three nested \<open>for\<close> loops that send the commands, each with its \<open>break\<close>.\<close>

fun send_versions :: "kill_env \<Rightarrow> nat \<Rightarrow> string \<Rightarrow> string \<Rightarrow> string list \<Rightarrow> kill_state \<Rightarrow> kill_state" where
  "send_versions env script_start_time symbol model [] ks = ks"
| "send_versions env script_start_time symbol model (version # versions) ks =
     (if \<not> should_continue env ks then ks
      else if now ks - script_start_time > TOTAL_TIMEOUT then ks\<lparr>stopped := True\<rparr>
      else send_versions env script_start_time symbol model versions
             (send_delete env symbol model version ks))"

fun send_models :: "kill_env \<Rightarrow> nat \<Rightarrow> string \<Rightarrow> string list \<Rightarrow> kill_state \<Rightarrow> kill_state" where
  "send_models env script_start_time symbol [] ks = ks"
| "send_models env script_start_time symbol (model # models) ks =
     (if \<not> should_continue env ks then ks
      else send_models env script_start_time symbol models
             (send_versions env script_start_time symbol model VERSIONS ks))"

fun send_symbols :: "kill_env \<Rightarrow> nat \<Rightarrow> string list \<Rightarrow> kill_state \<Rightarrow> kill_state" where
  "send_symbols env script_start_time [] ks = ks"
| "send_symbols env script_start_time (symbol # symbols) ks =
     (if \<not> should_continue env ks then ks
      else send_symbols env script_start_time symbols
             (send_models env script_start_time symbol MODELS ks))"

text \<open>The three nested \<open>for\<close> loops that wait for the consumers.\<close>

definition wait_break :: "kill_env \<Rightarrow> nat \<Rightarrow> kill_state \<Rightarrow> bool" where
  "wait_break env script_start_time ks =
     (\<not> should_continue env ks \<or> now ks - script_start_time > TOTAL_TIMEOUT)"

fun wait_versions :: "kill_env \<Rightarrow> nat \<Rightarrow> string \<Rightarrow> string \<Rightarrow> string list \<Rightarrow> kill_state \<Rightarrow> kill_state" where
  "wait_versions env script_start_time symbol model [] ks = ks"
| "wait_versions env script_start_time symbol model (version # versions) ks =
     (if wait_break env script_start_time ks then ks
      else wait_versions env script_start_time symbol model versions
             (snd (wait_for_shutdown env symbol model version INDIVIDUAL_PROCESS_TIMEOUT ks)))"

fun wait_models :: "kill_env \<Rightarrow> nat \<Rightarrow> string \<Rightarrow> string list \<Rightarrow> kill_state \<Rightarrow> kill_state" where
  "wait_models env script_start_time symbol [] ks = ks"
| "wait_models env script_start_time symbol (model # models) ks =
     (if wait_break env script_start_time ks then ks
      else wait_models env script_start_time symbol models
             (wait_versions env script_start_time symbol model VERSIONS ks))"

fun wait_symbols :: "kill_env \<Rightarrow> nat \<Rightarrow> string list \<Rightarrow> kill_state \<Rightarrow> kill_state" where
  "wait_symbols env script_start_time [] ks = ks"
| "wait_symbols env script_start_time (symbol # symbols) ks =
     (if wait_break env script_start_time ks then ks
      else wait_symbols env script_start_time symbols
             (wait_models env script_start_time symbol MODELS ks))"

text \<open>The body of the \<open>try\<close> of \<open>main\<close>: the exception that leaves it, if any.\<close>

definition try_body :: "kill_env \<Rightarrow> kill_state \<Rightarrow> py_exn option \<times> kill_state" where
  "try_body env ks0 =
     (case body_raises env of
        Some e \<Rightarrow> (Some e, ks0)
      | None \<Rightarrow>
          let script_start_time = now ks0;
              ks1 = send_symbols env script_start_time SYMBOLS ks0;
              ks2 = (if should_continue env ks1
                     then send_delete env ''ALL'' ''producer'' ''main'' ks1 else ks1);
              ks3 = (if should_continue env ks2
                     then wait_symbols env script_start_time SYMBOLS ks2 else ks2);
              ks4 = (if should_continue env ks3 \<and> now ks3 - script_start_time \<le> TOTAL_TIMEOUT
                     then snd (wait_for_shutdown env ''ALL'' ''producer'' ''main''
                                 INDIVIDUAL_PROCESS_TIMEOUT ks3)
                     else ks3);
              ks5 = (if should_continue env ks4
                     then (if cleanup_raises env then ks4 else ks4\<lparr>cleaned := True\<rparr>)
                     else ks4)
          in (None, ks5))"

text \<open>
  The \<open>except Exception\<close> clause of \<open>main\<close> logs an \<open>Exception\<close> that leaves the \<open>try\<close>;
  anything else stays in flight.
\<close>

definition except_clause :: "py_exn option \<Rightarrow> py_exn option" where
  "except_clause r =
     (case r of None \<Rightarrow> None | Some e \<Rightarrow> if is_Exception e then None else Some e)"

text \<open>
  The \<open>finally\<close> clause runs \<open>sys.exit(0)\<close>: its \<open>SystemExit(0)\<close> replaces an exception
  in flight.
\<close>

definition finally_clause :: "py_exn option \<Rightarrow> py_exn" where
  "finally_clause in_flight = SystemExit 0"

text \<open>
  \<open>main\<close> never returns: the result is the exception that leaves it, and the final
  state.  The two \<open>signal.signal\<close> calls come before the \<open>try\<close>, so what they raise
  leaves \<open>main\<close> as it is.
\<close>

definition kill_all_main :: "kill_env \<Rightarrow> nat \<Rightarrow> py_exn \<times> kill_state" where
  "kill_all_main env start =
     (let ks0 = \<lparr>now = start, stopped = False, sent = [], cleaned = False\<rparr> in
      case signal_install env of
        Some e \<Rightarrow> (e, ks0)
      | None \<Rightarrow>
          (case try_body env ks0 of
             (r, ks) \<Rightarrow> (finally_clause (except_clause r), ks)))"

text \<open>
  The exit status of the interpreter when an exception leaves the script: the code of a
  \<open>SystemExit\<close>, 130 for a \<open>KeyboardInterrupt\<close>, and 1 after the traceback of any other
  exception.
\<close>

fun exit_status :: "py_exn \<Rightarrow> int" where
  "exit_status (SystemExit n) = n"
| "exit_status KeyboardInterrupt = 130"
| "exit_status (Exc cls msg) = 1"

text \<open>
  The script run as \<open>__main__\<close>: the module-level statements, of which
  \<open>logger = setup_logger("kill_all")\<close> can raise, then \<open>main()\<close>.
\<close>

definition kill_all_script :: "kill_env \<Rightarrow> nat \<Rightarrow> int \<times> kill_state" where
  "kill_all_script env start =
     (case logger_setup env of
        Some e \<Rightarrow> (exit_status e, \<lparr>now = start, stopped = False, sent = [], cleaned = False\<rparr>)
      | None \<Rightarrow> (case kill_all_main env start of (e, ks) \<Rightarrow> (exit_status e, ks)))"


section \<open>Model version slots (utils/model\_version\_manager.py)\<close>

text \<open>
  A path is the list of its components; the file system holds the regular files with
  their contents.  \<open>Path.name\<close> is the last component, \<open>Path.parent\<close> the rest.
\<close>

type_synonym path = "string list"

definition path_name :: "path \<Rightarrow> string" where
  "path_name p = (if p = [] then [] else last p)"

definition parent :: "path \<Rightarrow> path" where
  "parent p = butlast p"





definition get_model_dir :: "path \<Rightarrow> string \<Rightarrow> string \<Rightarrow> path" where
  "get_model_dir base model_type version = base @ [model_type, ''v'' @ version]"













section \<open>Properties of the control-plane state files\<close>



text \<open>
  C2 as stated fails: an error message stored for an entity does not survive a later
  \<open>state_write\<close> that passes no error.
\<close>

theorem state_write_merge_counterexample:
  "get_state_data
     (state_write
        (state_write Map.empty ''BTCUSDT'' ''lightgbm'' ''v1'' ''error'' (Some ''boom''))
        ''BTCUSDT'' ''lightgbm'' ''v1'' ''running'' None)
     ''BTCUSDT'' ''lightgbm'' ''v1''
   = Inr (Some (JObj [(''crypto'', JStr ''BTCUSDT''), (''model'', JStr ''lightgbm''),
                      (''version'', JStr ''v1''), (''state'', JStr ''running''),
                      (''error_msg'', JStr [])]))"
  by (simp add: get_state_data_def state_write_def state_data_def)

text \<open>
  C2, amended: \<open>state_write\<close> replaces the entity's whole record.  Whatever the file
  held before, it then holds exactly the five fields of the call, \<open>error_msg\<close> being the
  empty string when the call passes none; the files of other entities are left as they
  were.
\<close>

theorem state_write_replaces_record:
  "get_state_data (state_write dir crypto model version state error_msg) crypto model version
     = Inr (Some (state_data crypto model version state
                    (case error_msg of None \<Rightarrow> [] | Some m \<Rightarrow> m)))
   \<and> (fn \<noteq> state_filename crypto model version \<longrightarrow>
        state_write dir crypto model version state error_msg fn = dir fn)"
  by (simp add: get_state_data_def state_write_def)

theorem state_write_replaces_record_witness:
  "get_state_data (state_write Map.empty ''BTCUSDT'' ''tst'' ''v2'' ''wait'' None) ''BTCUSDT'' ''tst'' ''v2''
     = Inr (Some (state_data ''BTCUSDT'' ''tst'' ''v2'' ''wait'' []))
   \<and> ''ALL_producer_main.json'' \<noteq> state_filename ''BTCUSDT'' ''tst'' ''v2''
   \<and> state_write Map.empty ''BTCUSDT'' ''tst'' ''v2'' ''wait'' None ''ALL_producer_main.json'' = None"
  using state_write_replaces_record
    [of Map.empty "''BTCUSDT''" "''tst''" "''v2''" "''wait''" None "''ALL_producer_main.json''"]
  by (simp add: state_filename_def)


text \<open>
  Likewise a state file whose bytes are not valid UTF-8: the \<open>UnicodeDecodeError\<close> is
  not among the exceptions that \<open>state_checker\<close> catches.
\<close>

lemma state_checker_raises_on_bad_bytes:
  "state_checker (\<lambda>t. [''BTCUSDT_lightgbm_v1.json'' \<mapsto> NotUtf8])
     ''BTCUSDT'' ''lightgbm'' ''v1'' 5 0
   = (Inl (Exc ''UnicodeDecodeError'' ''invalid start byte''), 0)"
  by (simp add: state_checker_def state_filename_def wait_for_file.simps read_state_def)







section \<open>Properties of the producer loop\<close>

text \<open>
  C1: the claim is what the comments of the code announce (\<open>Re-raise to stop the
  producer\<close>), but the re-raised exception is caught by the handler of the enclosing
  \<open>try\<close>.  With the state \<open>running\<close>, one fresh candle and a \<open>bulk_insert_df\<close> that
  raises, the pass logs, sleeps ten seconds and the process keeps polling.
\<close>

theorem producer_persist_failure_keeps_polling:
  "producer_loop
     [\<lparr>polled = Inr (JStr ''running''),
       download = Inr [\<lparr>open_time = 1704067200, open_price = Some 1, high = Some 2,
                         low = Some 1, close = Some 2, volume = Some 5\<rparr>],
       db_insert = Some (Exc ''ServiceUnavailable'' ''503 backend unavailable''),
       csv_write = None, kafka_send = None\<rparr>] None []
   = (Polling, [Fetched None, LoggedError, LoggedError, LoggedError, Slept 10])"
  by (simp add: producer_cycle_def fetch_and_publish_def inner_handler_def)

text \<open>
  C3 as stated fails: a polled state other than \<open>delete\<close>, \<open>pause\<close>, \<open>running\<close> and
  \<open>start\<close> (here \<open>unknown\<close>, what \<open>state_checker\<close> returns for a missing file) is not
  treated as running; nothing is fetched although a fresh candle is available.
\<close>

theorem producer_unknown_state_counterexample:
  "producer_cycle
     \<lparr>polled = Inr (JStr ''unknown''),
      download = Inr [\<lparr>open_time = 1704067200, open_price = Some 1, high = Some 2,
                        low = Some 1, close = Some 2, volume = Some 5\<rparr>],
      db_insert = None, csv_write = None, kafka_send = None\<rparr> None
   = (Continue, None, [LoggedWarning, Slept 10])"
  by (simp add: producer_cycle_def)

lemma inner_handler_trace: "x \<in> set tr \<Longrightarrow> x \<in> set (snd (snd (inner_handler e lt tr)))"
  by (cases e) (simp_all add: inner_handler_def)

lemma after_persist_trace: "x \<in> set tr \<Longrightarrow> x \<in> set (snd (snd (after_persist env df lt tr)))"
  by (auto simp add: after_persist_def inner_handler_trace split: option.splits)

lemma fetch_and_publish_trace:
  "Fetched (map_option (\<lambda>t. t + 60) lt) \<in> set (snd (snd (fetch_and_publish env lt tr)))"
  by (auto simp add: fetch_and_publish_def Let_def inner_handler_trace after_persist_trace
           split: sum.splits option.splits)

lemma max_open_time_Max: "df \<noteq> [] \<Longrightarrow> max_open_time df = Max (open_time ` set df)"
proof -
  assume ne: "df \<noteq> []"
  have "max_open_time df = Max (set (open_time (hd df) # map open_time df))"
    unfolding max_open_time_def by (rule Max.set_eq_fold [symmetric])
  also have "set (open_time (hd df) # map open_time df) = open_time ` set df"
    using ne by (cases df) auto
  finally show ?thesis .
qed

lemma fetch_and_publish_no_fresh:
  assumes "download env = Inr df"
    and "(case lt of None \<Rightarrow> df | Some t \<Rightarrow> filter (\<lambda>c. open_time c > t) df) = []"
  shows "fetch_and_publish env lt tr
           = (Continue, lt, tr @ [Fetched (map_option (\<lambda>t. t + 60) lt), Slept 60])"
  using assms by (simp add: fetch_and_publish_def Let_def)

lemma fetch_and_publish_fresh:
  assumes "download env = Inr df"
    and "new_df = (case lt of None \<Rightarrow> df | Some t \<Rightarrow> filter (\<lambda>c. open_time c > t) df)"
    and "new_df \<noteq> []"
    and "db_insert env = None" and "csv_write env = None" and "kafka_send env = None"
  shows "fetch_and_publish env lt tr
           = (Continue, Some (Max (open_time ` set new_df)),
              tr @ [Fetched (map_option (\<lambda>t. t + 60) lt), Persisted (length new_df),
                    CsvAppended (length new_df), Published (length new_df), SleptToNextMinute])"
proof -
  from assms(2,3) have "df \<noteq> []" by (cases lt) auto
  with assms show ?thesis
    by (simp add: fetch_and_publish_def Let_def after_persist_def max_open_time_Max)
qed

text \<open>
  C3, amended: \<open>delete\<close> makes the producer write \<open>deleted\<close> and stop; \<open>pause\<close> makes it
  sleep ten seconds and poll again without fetching; every value other than \<open>delete\<close>,
  \<open>pause\<close>, \<open>running\<close> and \<open>start\<close> makes it log a warning, sleep ten seconds and poll
  again without fetching.  \<open>running\<close> and \<open>start\<close> make it fetch, \<open>start\<close> after writing
  \<open>running\<close>: when the download brings no candle newer than the cursor the pass sleeps a
  minute and polls again; when it brings fresh candles and neither the store, the CSV
  file nor the broker raise, the pass persists them, appends them to the CSV file and
  publishes them, in this order, moves the cursor to the greatest \<open>open_time\<close> among
  them and sleeps to the next minute.
\<close>

theorem producer_control_dispatch:
  assumes "polled env = Inr st"
  shows "(st = JStr ''delete'' \<longrightarrow>
            producer_cycle env lt = (Break, lt, [StateWritten ''deleted'']))
       \<and> (st = JStr ''pause'' \<longrightarrow> producer_cycle env lt = (Continue, lt, [Slept 10]))
       \<and> (st = JStr ''running'' \<longrightarrow> producer_cycle env lt = fetch_and_publish env lt [])
       \<and> (st = JStr ''start'' \<longrightarrow>
            producer_cycle env lt = fetch_and_publish env lt [StateWritten ''running''])
       \<and> (st \<in> {JStr ''running'', JStr ''start''} \<longrightarrow>
            Fetched (map_option (\<lambda>t. t + 60) lt) \<in> set (snd (snd (producer_cycle env lt))))
       \<and> (st \<notin> {JStr ''delete'', JStr ''pause'', JStr ''running'', JStr ''start''} \<longrightarrow>
            producer_cycle env lt = (Continue, lt, [LoggedWarning, Slept 10]))
       \<and> (st \<in> {JStr ''running'', JStr ''start''} \<longrightarrow>
            (\<forall>df new_df pre.
               download env = Inr df
               \<and> new_df = (case lt of None \<Rightarrow> df | Some t \<Rightarrow> filter (\<lambda>c. open_time c > t) df)
               \<and> pre = (if st = JStr ''start'' then [StateWritten ''running''] else []) \<longrightarrow>
               (new_df = [] \<longrightarrow>
                  producer_cycle env lt
                    = (Continue, lt, pre @ [Fetched (map_option (\<lambda>t. t + 60) lt), Slept 60]))
             \<and> (new_df \<noteq> [] \<and> db_insert env = None \<and> csv_write env = None
                  \<and> kafka_send env = None \<longrightarrow>
                  producer_cycle env lt
                    = (Continue, Some (Max (open_time ` set new_df)),
                       pre @ [Fetched (map_option (\<lambda>t. t + 60) lt),
                              Persisted (length new_df), CsvAppended (length new_df),
                              Published (length new_df), SleptToNextMinute]))))"
proof -
  have a: "st = JStr ''delete'' \<longrightarrow>
            producer_cycle env lt = (Break, lt, [StateWritten ''deleted''])"
    using assms by (simp add: producer_cycle_def)
  have b: "st = JStr ''pause'' \<longrightarrow> producer_cycle env lt = (Continue, lt, [Slept 10])"
    using assms by (simp add: producer_cycle_def)
  have c: "st = JStr ''running'' \<longrightarrow> producer_cycle env lt = fetch_and_publish env lt []"
    using assms by (simp add: producer_cycle_def)
  have d: "st = JStr ''start'' \<longrightarrow>
            producer_cycle env lt = fetch_and_publish env lt [StateWritten ''running'']"
    using assms by (simp add: producer_cycle_def)
  have e: "st \<in> {JStr ''running'', JStr ''start''} \<longrightarrow>
            Fetched (map_option (\<lambda>t. t + 60) lt) \<in> set (snd (snd (producer_cycle env lt)))"
    using c d by (auto simp add: fetch_and_publish_trace)
  have f: "st \<notin> {JStr ''delete'', JStr ''pause'', JStr ''running'', JStr ''start''} \<longrightarrow>
            producer_cycle env lt = (Continue, lt, [LoggedWarning, Slept 10])"
    using assms by (simp add: producer_cycle_def)
  have g: "st \<in> {JStr ''running'', JStr ''start''} \<longrightarrow>
            (\<forall>df new_df pre.
               download env = Inr df
               \<and> new_df = (case lt of None \<Rightarrow> df | Some t \<Rightarrow> filter (\<lambda>c. open_time c > t) df)
               \<and> pre = (if st = JStr ''start'' then [StateWritten ''running''] else []) \<longrightarrow>
               (new_df = [] \<longrightarrow>
                  producer_cycle env lt
                    = (Continue, lt, pre @ [Fetched (map_option (\<lambda>t. t + 60) lt), Slept 60]))
             \<and> (new_df \<noteq> [] \<and> db_insert env = None \<and> csv_write env = None
                  \<and> kafka_send env = None \<longrightarrow>
                  producer_cycle env lt
                    = (Continue, Some (Max (open_time ` set new_df)),
                       pre @ [Fetched (map_option (\<lambda>t. t + 60) lt),
                              Persisted (length new_df), CsvAppended (length new_df),
                              Published (length new_df), SleptToNextMinute])))"
  proof (intro impI allI conjI)
    fix df new_df pre
    assume st: "st \<in> {JStr ''running'', JStr ''start''}"
    assume h: "download env = Inr df
               \<and> new_df = (case lt of None \<Rightarrow> df | Some t \<Rightarrow> filter (\<lambda>c. open_time c > t) df)
               \<and> pre = (if st = JStr ''start'' then [StateWritten ''running''] else [])"
    have pc: "producer_cycle env lt = fetch_and_publish env lt pre"
      using st c d h by auto
    {
      assume "new_df = []"
      with h show "producer_cycle env lt
                    = (Continue, lt, pre @ [Fetched (map_option (\<lambda>t. t + 60) lt), Slept 60])"
        unfolding pc by (intro fetch_and_publish_no_fresh) auto
    }
    {
      assume "new_df \<noteq> [] \<and> db_insert env = None \<and> csv_write env = None \<and> kafka_send env = None"
      with h show "producer_cycle env lt
                    = (Continue, Some (Max (open_time ` set new_df)),
                       pre @ [Fetched (map_option (\<lambda>t. t + 60) lt),
                              Persisted (length new_df), CsvAppended (length new_df),
                              Published (length new_df), SleptToNextMinute])"
        unfolding pc by (intro fetch_and_publish_fresh [where df = df]) auto
    }
  qed
  show ?thesis
    by (rule conjI [OF a conjI [OF b conjI [OF c conjI [OF d conjI [OF e conjI [OF f g]]]]]])
qed

theorem producer_control_dispatch_witness:
  "producer_cycle
     \<lparr>polled = Inr (JStr ''start''),
      download = Inr [sample_candle 1704067200, sample_candle 1704067260],
      db_insert = None, csv_write = None, kafka_send = None\<rparr> (Some 1704067200)
   = (Continue, Some 1704067260,
      [StateWritten ''running'', Fetched (Some 1704067260), Persisted 1, CsvAppended 1,
       Published 1, SleptToNextMinute])
   \<and> producer_cycle
     \<lparr>polled = Inr (JStr ''running''), download = Inr [sample_candle 1704067200],
      db_insert = None, csv_write = None, kafka_send = None\<rparr> None
   = (Continue, Some 1704067200,
      [Fetched None, Persisted 1, CsvAppended 1, Published 1, SleptToNextMinute])
   \<and> producer_cycle
     \<lparr>polled = Inr (JStr ''pause''), download = Inr [sample_candle 1704067200],
      db_insert = None, csv_write = None, kafka_send = None\<rparr> None
   = (Continue, None, [Slept 10])
   \<and> producer_cycle
     \<lparr>polled = Inr (JStr ''delete''), download = Inr [sample_candle 1704067200],
      db_insert = None, csv_write = None, kafka_send = None\<rparr> None
   = (Break, None, [StateWritten ''deleted''])"
proof (intro conjI)
  show "producer_cycle
     \<lparr>polled = Inr (JStr ''start''),
      download = Inr [sample_candle 1704067200, sample_candle 1704067260],
      db_insert = None, csv_write = None, kafka_send = None\<rparr> (Some 1704067200)
   = (Continue, Some 1704067260,
      [StateWritten ''running'', Fetched (Some 1704067260), Persisted 1, CsvAppended 1,
       Published 1, SleptToNextMinute])"
    using producer_control_dispatch
      [of "\<lparr>polled = Inr (JStr ''start''),
            download = Inr [sample_candle 1704067200, sample_candle 1704067260],
            db_insert = None, csv_write = None, kafka_send = None\<rparr>" "JStr ''start''"
          "Some 1704067200",
          THEN conjunct2, THEN conjunct2, THEN conjunct2, THEN conjunct2, THEN conjunct2,
          THEN conjunct2]
    by (simp add: sample_candle_def del: set_filter)
next
  show "producer_cycle
     \<lparr>polled = Inr (JStr ''running''), download = Inr [sample_candle 1704067200],
      db_insert = None, csv_write = None, kafka_send = None\<rparr> None
   = (Continue, Some 1704067200,
      [Fetched None, Persisted 1, CsvAppended 1, Published 1, SleptToNextMinute])"
    using producer_control_dispatch
      [of "\<lparr>polled = Inr (JStr ''running''), download = Inr [sample_candle 1704067200],
            db_insert = None, csv_write = None, kafka_send = None\<rparr>" "JStr ''running''" None,
          THEN conjunct2, THEN conjunct2, THEN conjunct2, THEN conjunct2, THEN conjunct2,
          THEN conjunct2]
    by (simp add: sample_candle_def del: set_filter)
next
  show "producer_cycle
     \<lparr>polled = Inr (JStr ''pause''), download = Inr [sample_candle 1704067200],
      db_insert = None, csv_write = None, kafka_send = None\<rparr> None
   = (Continue, None, [Slept 10])"
    using producer_control_dispatch
      [of "\<lparr>polled = Inr (JStr ''pause''), download = Inr [sample_candle 1704067200],
            db_insert = None, csv_write = None, kafka_send = None\<rparr>" "JStr ''pause''" None]
    by simp
next
  show "producer_cycle
     \<lparr>polled = Inr (JStr ''delete''), download = Inr [sample_candle 1704067200],
      db_insert = None, csv_write = None, kafka_send = None\<rparr> None
   = (Break, None, [StateWritten ''deleted''])"
    using producer_control_dispatch
      [of "\<lparr>polled = Inr (JStr ''delete''), download = Inr [sample_candle 1704067200],
            db_insert = None, csv_write = None, kafka_send = None\<rparr>" "JStr ''delete''" None]
    by simp
qed


section \<open>Properties of the document store\<close>

lemma apply_ops_deletes:
  "apply_ops (map Delete ks) ds = Inr (filter (\<lambda>kd. fst kd \<notin> set ks) ds)"
proof (induction ks arbitrary: ds)
  case Nil
  then show ?case by simp
next
  case (Cons k ks)
  have "AList.delete k ds = filter (\<lambda>kd. fst kd \<noteq> k) ds"
    by (induction ds) auto
  then show ?case using Cons by (simp add: conj_commute)
qed

lemma commit_deletes_None:
  "commit (map Delete ks) st = (None, st1) \<Longrightarrow>
   docs st1 = filter (\<lambda>kd. fst kd \<notin> set ks) (docs st) \<and> faults st1 = tl (faults st)"
  by (auto simp add: commit_def apply_ops_deletes split: list.splits option.splits)

lemma commit_deletes_ok:
  "set (faults st) \<subseteq> {None} \<Longrightarrow>
   fst (commit (map Delete ks) st) = None \<and> set (faults (snd (commit (map Delete ks) st))) \<subseteq> {None}"
  by (auto simp add: commit_def apply_ops_deletes split: list.splits option.splits)

lemma delete_docs_result:
  "delete_docs ks (map Delete bs) st = (Inr batch', st') \<Longrightarrow>
   \<exists>bs'. batch' = map Delete bs'
     \<and> filter (\<lambda>kd. fst kd \<notin> set bs') (docs st') = filter (\<lambda>kd. fst kd \<notin> set bs \<union> set ks) (docs st)"
proof (induction ks arbitrary: bs st)
  case Nil
  then show ?case by auto
next
  case (Cons k ks)
  let ?b1 = "map Delete (bs @ [k])"
  show ?case
  proof (cases "length ?b1 \<ge> 500")
    case True
    with Cons.prems obtain st1 where c: "commit ?b1 st = (None, st1)"
      and r: "delete_docs ks (map Delete []) st1 = (Inr batch', st')"
      by (auto simp add: Let_def split: prod.splits option.splits)
    from commit_deletes_None [OF c]
    have d1: "docs st1 = filter (\<lambda>kd. fst kd \<notin> set (bs @ [k])) (docs st)" by simp
    from Cons.IH [OF r] obtain bs' where b: "batch' = map Delete bs'"
      and e: "filter (\<lambda>kd. fst kd \<notin> set bs') (docs st') = filter (\<lambda>kd. fst kd \<notin> set [] \<union> set ks) (docs st1)"
      by blast
    have "filter (\<lambda>kd. fst kd \<notin> set [] \<union> set ks) (docs st1)
            = filter (\<lambda>kd. fst kd \<notin> set bs \<union> set (k # ks)) (docs st)"
      unfolding d1 filter_filter by (rule filter_cong) auto
    with b e show ?thesis by (intro exI [of _ bs']) simp
  next
    case False
    with Cons.prems have r: "delete_docs ks (map Delete (bs @ [k])) st = (Inr batch', st')"
      by (simp add: Let_def)
    from Cons.IH [OF r] show ?thesis by (auto simp add: Un_assoc Un_commute insert_commute)
  qed
qed

lemma delete_docs_ok:
  "set (faults st) \<subseteq> {None} \<Longrightarrow>
   (\<exists>b. fst (delete_docs ks (map Delete bs) st) = Inr (map Delete b))
   \<and> set (faults (snd (delete_docs ks (map Delete bs) st))) \<subseteq> {None}"
proof (induction ks arbitrary: bs st)
  case Nil
  then show ?case by auto
next
  case (Cons k ks)
  let ?b1 = "map Delete (bs @ [k])"
  show ?case
  proof (cases "length ?b1 \<ge> 500")
    case True
    obtain r st1 where c: "commit ?b1 st = (r, st1)" by (cases "commit ?b1 st")
    with commit_deletes_ok [OF Cons.prems, of "bs @ [k]"] have "r = None" "set (faults st1) \<subseteq> {None}"
      by auto
    with Cons.IH [of st1 "[]"] c True show ?thesis by (simp add: Let_def)
  next
    case False
    with Cons.IH [OF Cons.prems, of "bs @ [k]"] show ?thesis by (simp add: Let_def)
  qed
qed

lemma keep_docs:
  assumes "keep_last_365_days fld st = (None, st')"
  shows "latest_ts fld (docs st) = None \<and> st' = st \<or>
         (\<exists>latest. latest_ts fld (docs st) = Some latest \<and>
            docs st' = filter (\<lambda>kd. fst kd \<notin> fst ` {kd \<in> set (docs st).
                 case time_of fld (snd kd) of None \<Rightarrow> False | Some t \<Rightarrow> t < latest - days_180})
               (docs st))"
proof (cases "latest_ts fld (docs st)")
  case None
  with assms show ?thesis by (simp add: keep_last_365_days_def)
next
  case (Some latest)
  let ?old = "\<lambda>kd. case time_of fld (snd kd) of None \<Rightarrow> False | Some t \<Rightarrow> t < latest - days_180"
  let ?ks = "map fst (filter ?old (docs st))"
  from assms Some obtain batch st1 where
    d: "delete_docs ?ks (map Delete []) st = (Inr batch, st1)" and c: "commit_rest batch st1 = (None, st')"
    by (auto simp add: keep_last_365_days_def Let_def split: prod.splits sum.splits)
  from delete_docs_result [OF d] obtain bs' where b: "batch = map Delete bs'"
    and f: "filter (\<lambda>kd. fst kd \<notin> set bs') (docs st1) = filter (\<lambda>kd. fst kd \<notin> set [] \<union> set ?ks) (docs st)"
    by blast
  have "docs st' = filter (\<lambda>kd. fst kd \<notin> set bs') (docs st1)"
  proof (cases "batch = []")
    case True
    with c b show ?thesis by (simp add: commit_rest_def)
  next
    case False
    with c b have "commit (map Delete bs') st1 = (None, st')" by (simp add: commit_rest_def)
    from commit_deletes_None [OF this] show ?thesis by simp
  qed
  with f have "docs st' = filter (\<lambda>kd. fst kd \<notin> set ?ks) (docs st)" by simp
  moreover have "set ?ks = fst ` {kd \<in> set (docs st). ?old kd}" by auto
  ultimately show ?thesis using Some by simp
qed


lemma latest_ts_Max:
  "latest_ts fld ds =
     (if {t. \<exists>kd \<in> set ds. time_of fld (snd kd) = Some t} = {} then None
      else Some (Max {t. \<exists>kd \<in> set ds. time_of fld (snd kd) = Some t}))"
proof -
  let ?ts = "List.map_filter (\<lambda>kd. time_of fld (snd kd)) ds"
  have s: "set ?ts = {t. \<exists>kd \<in> set ds. time_of fld (snd kd) = Some t}"
    by (force simp add: List.map_filter_def)
  show ?thesis
  proof (cases ?ts)
    case Nil
    with s show ?thesis by (simp add: latest_ts_def)
  next
    case (Cons t ts)
    have "fold max ts t = Max (set (t # ts))" by (rule Max.set_eq_fold [symmetric])
    with Cons have "fold max ts t = Max (set ?ts)" by simp
    moreover from Cons s have "{t. \<exists>kd \<in> set ds. time_of fld (snd kd) = Some t} \<noteq> {}"
      by (metis empty_iff list.set_intros(1))
    ultimately show ?thesis using Cons s by (simp add: latest_ts_def)
  qed
qed

lemma keep_latest_preserved:
  assumes k: "keep_last_365_days fld st = (None, st')" and d: "distinct (map fst (docs st))"
  shows "latest_ts fld (docs st') = latest_ts fld (docs st)"
proof -
  from keep_docs [OF k] show ?thesis
  proof
    assume "latest_ts fld (docs st) = None \<and> st' = st"
    then show ?thesis by simp
  next
    assume "\<exists>latest. latest_ts fld (docs st) = Some latest \<and>
            docs st' = filter (\<lambda>kd. fst kd \<notin> fst ` {kd \<in> set (docs st).
                 case time_of fld (snd kd) of None \<Rightarrow> False | Some t \<Rightarrow> t < latest - days_180})
               (docs st)"
    then obtain latest where l: "latest_ts fld (docs st) = Some latest"
      and e: "docs st' = filter (\<lambda>kd. fst kd \<notin> fst ` {kd \<in> set (docs st).
                 case time_of fld (snd kd) of None \<Rightarrow> False | Some t \<Rightarrow> t < latest - days_180})
               (docs st)" by blast
    let ?T = "{t. \<exists>kd \<in> set (docs st). time_of fld (snd kd) = Some t}"
    let ?T' = "{t. \<exists>kd \<in> set (docs st'). time_of fld (snd kd) = Some t}"
    have fin: "finite ?T"
    proof -
      have "?T \<subseteq> (\<lambda>kd. the (time_of fld (snd kd))) ` set (docs st)" by force
      then show ?thesis by (rule finite_subset) simp
    qed
    from l have ne: "?T \<noteq> {}" and m: "latest = Max ?T"
      by (auto simp add: latest_ts_Max split: if_splits)
    have uniq: "\<And>k a b. (k, a) \<in> set (docs st) \<Longrightarrow> (k, b) \<in> set (docs st) \<Longrightarrow> a = b"
      using d by (meson eq_key_imp_eq_value)
    have T': "?T' = {t \<in> ?T. latest - days_180 \<le> t}"
    proof (intro set_eqI iffI)
      fix t assume "t \<in> ?T'"
      then obtain kd where kd: "kd \<in> set (docs st')" "time_of fld (snd kd) = Some t" by blast
      with e have "kd \<in> set (docs st)" and
        "fst kd \<notin> fst ` {kd \<in> set (docs st).
                 case time_of fld (snd kd) of None \<Rightarrow> False | Some t \<Rightarrow> t < latest - days_180}"
        by auto
      with kd show "t \<in> {t \<in> ?T. latest - days_180 \<le> t}" by force
    next
      fix t assume "t \<in> {t \<in> ?T. latest - days_180 \<le> t}"
      then obtain kd where kd: "kd \<in> set (docs st)" "time_of fld (snd kd) = Some t"
        and t: "latest - days_180 \<le> t" by blast
      have "fst kd \<notin> fst ` {kd \<in> set (docs st).
                 case time_of fld (snd kd) of None \<Rightarrow> False | Some t \<Rightarrow> t < latest - days_180}"
      proof
        assume "fst kd \<in> fst ` {kd \<in> set (docs st).
                 case time_of fld (snd kd) of None \<Rightarrow> False | Some t \<Rightarrow> t < latest - days_180}"
        then obtain kd' where kd': "kd' \<in> set (docs st)" "fst kd' = fst kd"
          "case time_of fld (snd kd') of None \<Rightarrow> False | Some t \<Rightarrow> t < latest - days_180"
          by auto
        with kd(1) uniq [of "fst kd" "snd kd" "snd kd'"] have "snd kd = snd kd'"
          by (metis prod.collapse)
        with kd' kd(2) t show False by simp
      qed
      with kd e have "kd \<in> set (docs st')" by simp
      with kd(2) show "t \<in> ?T'" by blast
    qed
    have "Max ?T \<in> ?T" using fin ne by (rule Max_in)
    moreover have "0 \<le> days_180" by (simp add: days_180_def)
    ultimately have in': "Max ?T \<in> ?T'" using T' m by simp
    have fin': "finite ?T'" using T' fin by simp
    have "Max ?T' = Max ?T"
    proof (rule Max_eqI [OF fin'])
      fix y assume "y \<in> ?T'"
      with T' have "y \<in> ?T" by simp
      then show "y \<le> Max ?T" using fin by simp
    next
      show "Max ?T \<in> ?T'" by (rule in')
    qed
    moreover have "?T' \<noteq> {}" using in' by blast
    ultimately have "latest_ts fld (docs st') = Some (Max ?T)"
      by (simp add: latest_ts_Max)
    with l m show ?thesis by simp
  qed
qed

lemma keep_ok:
  assumes "set (faults st) \<subseteq> {None}"
  shows "fst (keep_last_365_days fld st) = None"
proof (cases "latest_ts fld (docs st)")
  case None
  then show ?thesis by (simp add: keep_last_365_days_def)
next
  case (Some latest)
  let ?ks = "map fst (filter (\<lambda>kd. case time_of fld (snd kd) of None \<Rightarrow> False
                                     | Some t \<Rightarrow> t < latest - days_180) (docs st))"
  from delete_docs_ok [OF assms, of ?ks "[]"] obtain b where
    b: "fst (delete_docs ?ks [] st) = Inr (map Delete b)"
    and f: "set (faults (snd (delete_docs ?ks [] st))) \<subseteq> {None}" by auto
  obtain st1 where st1: "delete_docs ?ks [] st = (Inr (map Delete b), st1)"
    using b by (cases "delete_docs ?ks [] st") auto
  with f have "set (faults st1) \<subseteq> {None}" by simp
  from commit_deletes_ok [OF this, of b] have "fst (commit_rest (map Delete b) st1) = None"
    by (simp add: commit_rest_def)
  with Some st1 show ?thesis by (simp add: keep_last_365_days_def Let_def)
qed

text \<open>
  C7: when \<open>_keep_last_365_days\<close> returns (every commit it made was accepted, which is
  the case whenever the service rejects none), no document is left whose time field is
  older than the collection's latest timestamp minus 180 days; with unique document ids
  the latest timestamp itself is not changed by the trimming.
\<close>

theorem retention_trims_old_documents:
  "(set (faults st) \<subseteq> {None} \<longrightarrow> fst (keep_last_365_days fld st) = None)
   \<and> (keep_last_365_days fld st = (None, st') \<longrightarrow>
        (\<forall>kd \<in> set (docs st'). \<forall>t latest.
            time_of fld (snd kd) = Some t \<longrightarrow> latest_ts fld (docs st) = Some latest \<longrightarrow>
            latest - days_180 \<le> t)
        \<and> (distinct (map fst (docs st)) \<longrightarrow> latest_ts fld (docs st') = latest_ts fld (docs st)))"
proof (intro conjI impI ballI allI)
  assume "set (faults st) \<subseteq> {None}"
  then show "fst (keep_last_365_days fld st) = None" by (rule keep_ok)
next
  fix kd t latest
  assume k: "keep_last_365_days fld st = (None, st')" and kd: "kd \<in> set (docs st')"
    and t: "time_of fld (snd kd) = Some t" and l: "latest_ts fld (docs st) = Some latest"
  from keep_docs [OF k] l have
    "docs st' = filter (\<lambda>kd. fst kd \<notin> fst ` {kd \<in> set (docs st).
                 case time_of fld (snd kd) of None \<Rightarrow> False | Some t \<Rightarrow> t < latest - days_180})
               (docs st)" by auto
  with kd have "kd \<in> set (docs st)" and
    "fst kd \<notin> fst ` {kd \<in> set (docs st).
                 case time_of fld (snd kd) of None \<Rightarrow> False | Some t \<Rightarrow> t < latest - days_180}"
    by auto
  with t show "latest - days_180 \<le> t" by force
next
  assume "keep_last_365_days fld st = (None, st')" and "distinct (map fst (docs st))"
  then show "latest_ts fld (docs st') = latest_ts fld (docs st)" by (rule keep_latest_preserved)
qed

theorem retention_trims_old_documents_witness:
  "keep_last_365_days ''open_time''
     \<lparr>docs = [(0, doc_data (sample_candle 0)), (8640000, doc_data (sample_candle 8640000)),
              (17280000, doc_data (sample_candle 17280000))],
      faults = [], journal = [], slept = 0\<rparr>
   = (None,
      \<lparr>docs = [(8640000, doc_data (sample_candle 8640000)),
               (17280000, doc_data (sample_candle 17280000))],
       faults = [], journal = [Committed 1], slept = 0\<rparr>)
   \<and> latest_ts ''open_time''
        [(8640000, doc_data (sample_candle 8640000)), (17280000, doc_data (sample_candle 17280000))]
       = Some 17280000"
  using retention_trims_old_documents
    [of "\<lparr>docs = [(0, doc_data (sample_candle 0)), (8640000, doc_data (sample_candle 8640000)),
                   (17280000, doc_data (sample_candle 17280000))],
           faults = [], journal = [], slept = 0\<rparr>"
        "''open_time''"
        "\<lparr>docs = [(8640000, doc_data (sample_candle 8640000)),
                   (17280000, doc_data (sample_candle 17280000))],
           faults = [], journal = [Committed 1], slept = 0\<rparr>"]
  by (simp add: keep_last_365_days_def latest_ts_def time_of_def doc_data_def sample_candle_def
        days_180_def commit_rest_def commit_def)

lemma apply_ops_sets:
  "\<exists>ds'. apply_ops (map (\<lambda>r. SetMerge (open_time r) (doc_data r)) rs) ds = Inr ds'"
  by (induction rs arbitrary: ds) simp_all

lemma commit_sets_ok:
  fixes rs :: "'a candle_scheme list"
  assumes "faults st = [] \<or> hd (faults st) = None"
  shows "\<exists>st1. commit (map (\<lambda>r. SetMerge (open_time r) (doc_data r)) rs) st = (None, st1)
           \<and> faults st1 = tl (faults st) \<and> journal st1 = journal st @ [Committed (length rs)]
           \<and> slept st1 = slept st"
proof -
  obtain ds' where "apply_ops (map (\<lambda>r. SetMerge (open_time r) (doc_data r)) rs) (docs st) = Inr ds'"
    using apply_ops_sets by blast
  with assms show ?thesis
    by (cases "faults st") (auto simp add: commit_def split: option.splits)
qed

lemma insert_rows_chunks:
  fixes rows bs :: "'a candle_scheme list"
  assumes "length bs < 500" and "n = length bs + length rows"
    and "\<forall>f \<in> set (take (n div 500) (faults st)). f = None"
  shows "\<exists>(b :: 'a candle_scheme list) st'.
           insert_rows rows idx (map (\<lambda>r. SetMerge (open_time r) (doc_data r)) bs) st
             = (Inr (map (\<lambda>r. SetMerge (open_time r) (doc_data r)) b), st')
           \<and> length b = n mod 500
           \<and> faults st' = drop (n div 500) (faults st)
           \<and> journal st' = journal st @ replicate (n div 500) (Committed 500)
           \<and> slept st' = slept st + 100 * length (filter (\<lambda>i. i mod 1000 = 0) [idx..<idx + length rows])"
  using assms
proof (induction rows arbitrary: bs idx st n)
  case Nil
  show ?case using Nil.prems
    by - (rule exI [of _ bs], rule exI [of _ st], simp)
next
  case (Cons r rows)
  let ?op = "\<lambda>r::'a candle_scheme. SetMerge (open_time r) (doc_data r)"
  have upt: "[idx..<idx + length (r # rows)] = idx # [Suc idx..<Suc idx + length rows]"
  proof -
    have "idx < idx + length (r # rows)" by simp
    from upt_conv_Cons [OF this] show ?thesis by simp
  qed
  show ?case
  proof (cases "length (bs @ [r]) \<ge> 500")
    case True
    with Cons.prems(1) have len: "length bs = 499" by simp
    with Cons.prems(2) have n: "n = 500 + length rows" by simp
    then have q: "n div 500 = Suc (length rows div 500)" and m: "n mod 500 = length rows mod 500"
      by simp_all
    have hd_ok: "faults st = [] \<or> hd (faults st) = None"
    proof (cases "faults st")
      case Nil then show ?thesis by simp
    next
      case (Cons f fs)
      with Cons.prems(3) q show ?thesis by simp
    qed
    from commit_sets_ok [OF hd_ok, of "bs @ [r]"] obtain st1 where
      c: "commit (map ?op (bs @ [r])) st = (None, st1)" and f1: "faults st1 = tl (faults st)"
      and j1: "journal st1 = journal st @ [Committed 500]" and s1: "slept st1 = slept st"
      using len by auto
    define st2 where "st2 = (if idx mod 1000 = 0 then sleep_ms 100 st1 else st1)"
    have f2: "faults st2 = tl (faults st)" and j2: "journal st2 = journal st @ [Committed 500]"
      and s2: "slept st2 = slept st + (if idx mod 1000 = 0 then 100 else 0)"
      using f1 j1 s1 by (simp_all add: sleep_ms_def st2_def)
    have pre: "\<forall>f \<in> set (take (length rows div 500) (faults st2)). f = None"
    proof
      fix f assume "f \<in> set (take (length rows div 500) (faults st2))"
      then have "f \<in> set (take (length rows div 500) (tl (faults st)))" using f2 by simp
      then have "f \<in> set (take (Suc (length rows div 500)) (faults st))"
        by (cases "faults st") auto
      with Cons.prems(3) q show "f = None" by simp
    qed
    have "length ([]::'a candle_scheme list) < 500" "length rows = length ([]::'a candle_scheme list) + length rows"
      by simp_all
    from Cons.IH [OF this pre, of "Suc idx"] obtain b :: "'a candle_scheme list" and st' where
      r: "insert_rows rows (Suc idx) (map ?op []) st2 = (Inr (map ?op b), st')"
      and lb: "length b = length rows mod 500"
      and fb: "faults st' = drop (length rows div 500) (faults st2)"
      and jb: "journal st' = journal st2 @ replicate (length rows div 500) (Committed 500)"
      and sb: "slept st' = slept st2 + 100 * length (filter (\<lambda>i. i mod 1000 = 0) [Suc idx..<Suc idx + length rows])"
      by blast
    have "insert_rows (r # rows) idx (map ?op bs) st = (Inr (map ?op b), st')"
      using True c r by (simp add: commit_full_batch_def st2_def)
    moreover have "length b = n mod 500" using lb m by simp
    moreover have "faults st' = drop (n div 500) (faults st)"
      using fb f2 q by (simp add: drop_Suc)
    moreover have "journal st' = journal st @ replicate (n div 500) (Committed 500)"
      using jb j2 q by simp
    moreover have "slept st' = slept st + 100 * length (filter (\<lambda>i. i mod 1000 = 0) [idx..<idx + length (r # rows)])"
      unfolding upt using sb s2 by simp
    ultimately show ?thesis by blast
  next
    case False
    then have len: "length (bs @ [r]) < 500" by simp
    have n: "n = length (bs @ [r]) + length rows" using Cons.prems(2) by simp
    define st2 where "st2 = (if idx mod 1000 = 0 then sleep_ms 100 st else st)"
    have f2: "faults st2 = faults st" and j2: "journal st2 = journal st"
      and s2: "slept st2 = slept st + (if idx mod 1000 = 0 then 100 else 0)"
      by (simp_all add: sleep_ms_def st2_def)
    have pre: "\<forall>f \<in> set (take (n div 500) (faults st2)). f = None"
      using Cons.prems(3) f2 by simp
    from Cons.IH [OF len n pre, of "Suc idx"] obtain b :: "'a candle_scheme list" and st' where
      r: "insert_rows rows (Suc idx) (map ?op (bs @ [r])) st2 = (Inr (map ?op b), st')"
      and lb: "length b = n mod 500"
      and fb: "faults st' = drop (n div 500) (faults st2)"
      and jb: "journal st' = journal st2 @ replicate (n div 500) (Committed 500)"
      and sb: "slept st' = slept st2 + 100 * length (filter (\<lambda>i. i mod 1000 = 0) [Suc idx..<Suc idx + length rows])"
      by blast
    have "insert_rows (r # rows) idx (map ?op bs) st = (Inr (map ?op b), st')"
      using False r by (simp add: st2_def)
    moreover have "slept st' = slept st + 100 * length (filter (\<lambda>i. i mod 1000 = 0) [idx..<idx + length (r # rows)])"
      unfolding upt using sb s2 by simp
    ultimately show ?thesis using lb fb jb f2 j2 by auto
  qed
qed



lemma commit_full_batch_retries_once:
  assumes "faults st = Some e # None # fs" and "is_Exception e" and "is_rate_limited e"
  shows "\<exists>st'. commit_full_batch (map (\<lambda>r. SetMerge (open_time r) (doc_data r)) rs) st = (Inr [], st')
           \<and> journal st' = journal st @ [CommitFailed (length rs), Committed (length rs)]
           \<and> slept st' = slept st + 60000"
proof -
  obtain ds' where "apply_ops (map (\<lambda>r. SetMerge (open_time r) (doc_data r)) rs) (docs st) = Inr ds'"
    using apply_ops_sets by blast
  with assms show ?thesis
    by (simp add: commit_full_batch_def commit_def sleep_ms_def)
qed

text \<open>
  C4: 1,234 rows are committed in chunks of 500, 500 and 234, and a rate-limit error on a
  full chunk is retried once after 60 seconds (\<open>commit_full_batch_retries_once\<close>).  The
  commit of the last, partial chunk has no such retry: with a quota error on the third
  commit, \<open>bulk_insert_df\<close> makes three commit attempts and raises at once.
\<close>

theorem bulk_insert_final_chunk_no_retry:
  "fst (bulk_insert_df (sample_rows 1234)
          \<lparr>docs = [], faults = [None, None, Some (Exc ''ResourceExhausted'' ''429 Quota exceeded'')],
           journal = [], slept = 0\<rparr>)
     = Some (Exc ''ResourceExhausted'' ''429 Quota exceeded'')
   \<and> journal (snd (bulk_insert_df (sample_rows 1234)
        \<lparr>docs = [], faults = [None, None, Some (Exc ''ResourceExhausted'' ''429 Quota exceeded'')],
         journal = [], slept = 0\<rparr>))
     = [Committed 500, Committed 500, CommitFailed 234]"
proof -
  define df where "df = sample_rows 1234"
  let ?e = "Exc ''ResourceExhausted'' ''429 Quota exceeded''"
  let ?st = "\<lparr>docs = [], faults = [None, None, Some ?e], journal = [], slept = 0\<rparr>"
  let ?op = "\<lambda>r::candle. SetMerge (open_time r) (doc_data r)"
  have l: "length df = 1234" by (simp only: df_def sample_rows_def length_map length_upt diff_zero)
  have ne: "df \<noteq> []" using l by auto
  have p1: "length ([]::candle list) < 500" by simp
  have p2: "(1234::nat) = length ([]::candle list) + length df" using l by simp
  have p3: "\<forall>f \<in> set (take (1234 div 500) (faults ?st)). f = None"
    by (simp add: take_Cons')
  from insert_rows_chunks [OF p1 p2 p3, of 1] obtain b :: "candle list" and st' where
    r: "insert_rows df 1 (map ?op []) ?st = (Inr (map ?op b), st')"
    and lb: "length b = 1234 mod 500"
    and fb: "faults st' = drop (1234 div 500) (faults ?st)"
    and jb: "journal st' = journal ?st @ replicate (1234 div 500) (Committed 500)"
    by blast
  have lb': "length b = 234" using lb by simp
  then have bne: "map ?op b \<noteq> []" by auto
  have fb': "faults st' = [Some ?e]" using fb by (simp add: drop_Cons')
  have jb': "journal st' = [Committed 500, Committed 500]"
    using jb by (simp add: numeral_2_eq_2)
  have c: "commit_rest (map ?op b) st'
            = (Some ?e, st'\<lparr>faults := [], journal := [Committed 500, Committed 500, CommitFailed 234]\<rparr>)"
    using bne fb' jb' lb' by (simp add: commit_rest_def commit_def)
  have "bulk_insert_df df ?st
          = (Some ?e, st'\<lparr>faults := [], journal := [Committed 500, Committed 500, CommitFailed 234]\<rparr>)"
    using ne r c by (simp add: bulk_insert_df_def)
  then show ?thesis by (simp add: df_def)
qed

text \<open>
  C5: on the bulk path (more times than \<open>threshold\<close>) the rows of the times that have
  no document are handed to \<open>bulk_insert_df\<close> with the prediction column added, but
  \<open>bulk_insert_df\<close> writes the six candle fields only.  After one call the document of
  such a time has no prediction; a second, identical call finds the document and stores
  the prediction: the state after two calls differs from the state after one.
\<close>

theorem upsert_bulk_path_drops_prediction:
  "map_option (\<lambda>d. d ''lightgbm_v1'')
     (map_of (docs (snd (upsert_predictions ''lightgbm'' ''v1'' [0, 60]
                           [[0.2, 0.3, 0.5], [0.1, 0.1, 0.8]] (sample_rows 2) 1
                           \<lparr>docs = [], faults = [], journal = [], slept = 0\<rparr>))) 60)
     = Some None
   \<and> map_option (\<lambda>d. d ''lightgbm_v1'')
       (map_of (docs (snd (upsert_predictions ''lightgbm'' ''v1'' [0, 60]
                             [[0.2, 0.3, 0.5], [0.1, 0.1, 0.8]] (sample_rows 2) 1
                (snd (upsert_predictions ''lightgbm'' ''v1'' [0, 60]
                             [[0.2, 0.3, 0.5], [0.1, 0.1, 0.8]] (sample_rows 2) 1
                             \<lparr>docs = [], faults = [], journal = [], slept = 0\<rparr>))))) 60)
     = Some (Some (FVec [0.1, 0.1, 0.8]))"
  by code_simp

text \<open>
  On the small-batch path, also with the default threshold, a time without a document
  makes the batch of \<open>update\<close> writes fail as a whole: the call raises and nothing is
  stored for that time, however often it is repeated.
\<close>

theorem upsert_single_missing_document_raises:
  "upsert_predictions ''lightgbm'' ''v1'' [60] [[0.2, 0.3, 0.5]] [sample_candle 60] default_threshold
     \<lparr>docs = [(0, doc_data (sample_candle 0))], faults = [], journal = [], slept = 0\<rparr>
   = (Some (Exc ''NotFound'' ''No document to update''),
      \<lparr>docs = [(0, doc_data (sample_candle 0))], faults = [], journal = [CommitFailed 1], slept = 0\<rparr>)"
  by (simp add: upsert_predictions_def keep_last_365_days_def latest_ts_def time_of_def doc_data_def
        sample_candle_def days_180_def commit_rest_def commit_def default_threshold_def)

section \<open>Properties of the consumer streaming loop\<close>

lemma handler_cursor: "last_processed_time (fst (snd (handler e st ev))) = last_processed_time st"
  by (simp add: handler_def)

lemma score_and_store_cursor:
  assumes "score_and_store model version env window_df fv st = (r, st', ev)"
    and "last_processed_time st' \<noteq> last_processed_time st"
  shows "\<exists>t p c. last_processed_time st' = Some t
           \<and> upsert_predictions model version [t] [p] [c] default_threshold (store st) = (None, store st')"
  using assms
  by (fastforce simp add: score_and_store_def handler_def Let_def
           split: sum.splits option.splits prod.splits if_splits)

text \<open>
  C8: a call of \<open>maybe_process\<close> changes the cursor \<open>last_processed_time\<close> only to a
  timestamp whose prediction \<open>upsert_predictions\<close> has just stored without raising; on
  every other path, in particular when the upsert raises, the cursor keeps its value.
\<close>

theorem cursor_advances_only_after_upsert:
  assumes "maybe_process model version env msg st = (r, st', ev)"
    and "last_processed_time st' \<noteq> last_processed_time st"
  shows "\<exists>t p c. last_processed_time st' = Some t
           \<and> upsert_predictions model version [t] [p] [c] default_threshold (store st) = (None, store st')"
proof -
  have "\<exists>w fv w2. score_and_store model version env w fv (st\<lparr>rolling_window := w2\<rparr>) = (r, st', ev)"
    using assms
    by (auto simp add: maybe_process_def handler_def Let_def
             split: sum.splits message.splits if_splits)
  then obtain w fv w2 where
    "score_and_store model version env w fv (st\<lparr>rolling_window := w2\<rparr>) = (r, st', ev)"
    by blast
  from score_and_store_cursor [OF this] assms(2) show ?thesis by simp
qed

lemma example_run:
  "last_processed_time (fst (snd (maybe_process ''lightgbm'' ''v1'' example_env
      (Batch [sample_candle 1740]) example_consumer))) = Some 1740"
  by code_simp

theorem cursor_advances_only_after_upsert_witness:
  "\<exists>t p c. last_processed_time (fst (snd (maybe_process ''lightgbm'' ''v1'' example_env
                (Batch [sample_candle 1740]) example_consumer))) = Some t
     \<and> upsert_predictions ''lightgbm'' ''v1'' [t] [p] [c] default_threshold (store example_consumer)
         = (None, store (fst (snd (maybe_process ''lightgbm'' ''v1'' example_env
                (Batch [sample_candle 1740]) example_consumer))))"
proof -
  obtain r st' ev where m: "maybe_process ''lightgbm'' ''v1'' example_env
      (Batch [sample_candle 1740]) example_consumer = (r, st', ev)"
    by (metis prod_cases3)
  with example_run have "last_processed_time st' = Some 1740" by simp
  moreover have "last_processed_time example_consumer = Some 1680"
    by (simp add: example_consumer_def)
  ultimately have "last_processed_time st' \<noteq> last_processed_time example_consumer" by simp
  from cursor_advances_only_after_upsert [OF m this] m show ?thesis by simp
qed

section \<open>Properties of the shutdown script\<close>

lemma wait_for_file_le:
  "wait_for_file env fn start timeout k = Some k' \<Longrightarrow> k \<le> Suc timeout \<Longrightarrow> k' \<le> Suc timeout"
proof (induction env fn start timeout k rule: wait_for_file.induct)
  case (1 env filename start timeout elapsed)
  show ?case
  proof (cases "env (start + elapsed) filename \<noteq> None")
    case True
    with "1.prems" show ?thesis by (subst (asm) wait_for_file.simps) simp
  next
    case False
    show ?thesis
    proof (cases "elapsed > timeout")
      case True
      with False "1.prems" show ?thesis by (subst (asm) wait_for_file.simps) simp
    next
      case gt: False
      with False "1.prems"(1) have "wait_for_file env filename start timeout (Suc elapsed) = Some k'"
        by (subst (asm) wait_for_file.simps) simp
      with "1.IH" False gt show ?thesis by simp
    qed
  qed
qed

lemma state_checker_duration: "snd (state_checker env c m v timeout t) \<le> Suc timeout"
proof (cases "wait_for_file env (state_filename c m v) t timeout 0")
  case None
  then show ?thesis by (simp add: state_checker_def)
next
  case (Some k)
  from wait_for_file_le [OF this] have "k \<le> Suc timeout" by simp
  with Some show ?thesis
    by (simp add: state_checker_def split: sum.splits)
qed

lemma send_delete_time: "now (send_delete env c m v ks) \<le> now ks + 6"
proof -
  have "snd (state_checker (dir_at env) c m v 5 (now ks)) \<le> 6"
    using state_checker_duration [of "dir_at env" c m v 5 "now ks"] by simp
  then show ?thesis
    by (auto simp add: send_delete_def Let_def split: prod.splits sum.splits)
qed

lemma send_versions_time:
  "now (send_versions env t0 s m vs ks) \<le> now ks + 6 * length vs"
proof (induction vs arbitrary: ks)
  case Nil
  then show ?case by simp
next
  case (Cons v vs)
  have "now (send_versions env t0 s m vs (send_delete env s m v ks))
          \<le> now (send_delete env s m v ks) + 6 * length vs" by (rule Cons.IH)
  with send_delete_time [of env s m v ks] show ?case by simp
qed

lemma send_models_time:
  "now (send_models env t0 s ms ks) \<le> now ks + 18 * length ms"
proof (induction ms arbitrary: ks)
  case Nil
  then show ?case by simp
next
  case (Cons m ms)
  have "now (send_models env t0 s ms (send_versions env t0 s m VERSIONS ks))
          \<le> now (send_versions env t0 s m VERSIONS ks) + 18 * length ms" by (rule Cons.IH)
  moreover have "now (send_versions env t0 s m VERSIONS ks) \<le> now ks + 18"
    using send_versions_time [of env t0 s m VERSIONS ks] by (simp add: VERSIONS_def)
  ultimately show ?case by simp
qed

lemma send_symbols_time:
  "now (send_symbols env t0 ss ks) \<le> now ks + 36 * length ss"
proof (induction ss arbitrary: ks)
  case Nil
  then show ?case by simp
next
  case (Cons s ss)
  have "now (send_symbols env t0 ss (send_models env t0 s MODELS ks))
          \<le> now (send_models env t0 s MODELS ks) + 36 * length ss" by (rule Cons.IH)
  moreover have "now (send_models env t0 s MODELS ks) \<le> now ks + 36"
    using send_models_time [of env t0 s MODELS ks] by (simp add: MODELS_def)
  ultimately show ?case by simp
qed

lemma wait_loop_time:
  "start \<le> now ks \<Longrightarrow> now (snd (wait_loop env c m v timeout start ks)) \<le> max (now ks) (start + timeout + 10)"
proof (induction env c m v timeout start ks rule: wait_loop.induct)
  case (1 env crypto model version timeout start_time ks)
  show ?case
  proof (cases "now ks - start_time < timeout \<and> should_continue env ks")
    case False
    then show ?thesis by (subst wait_loop.simps) auto
  next
    case True
    obtain r d where sc: "state_checker (dir_at env) crypto model version 5 (now ks) = (r, d)"
      by (cases "state_checker (dir_at env) crypto model version 5 (now ks)")
    have d: "d \<le> 6" using state_checker_duration [of "dir_at env" crypto model version 5 "now ks"] sc
      by simp
    from True have "now ks - start_time < timeout" by blast
    with "1.prems" have lt: "now ks < start_time + timeout" by linarith
    let ?ks' = "ks\<lparr>now := now ks + d + 5\<rparr>"
    have n': "now ?ks' \<le> start_time + timeout + 10" "start_time \<le> now ?ks'"
      using d lt "1.prems" by simp_all
    show ?thesis
    proof (cases r)
      case (Inl e)
      have "now (snd (wait_loop env crypto model version timeout start_time ?ks'))
              \<le> max (now ?ks') (start_time + timeout + 10)"
        using "1.IH"(1) [OF True sc [symmetric] Inl] n'(2) by simp
      with n' have "now (snd (wait_loop env crypto model version timeout start_time ?ks'))
              \<le> start_time + timeout + 10" by simp
      then show ?thesis using True sc Inl by (subst wait_loop.simps) simp
    next
      case (Inr state)
      show ?thesis
      proof (cases "state = JStr ''deleted'' \<or> state = JStr ''unknown''")
        case t: True
        with True sc Inr d lt show ?thesis by (subst wait_loop.simps) auto
      next
        case f: False
        have "now (snd (wait_loop env crypto model version timeout start_time ?ks'))
              \<le> max (now ?ks') (start_time + timeout + 10)"
          using "1.IH"(2) [OF True sc [symmetric] Inr] f n'(2) by simp
        with n' have "now (snd (wait_loop env crypto model version timeout start_time ?ks'))
              \<le> start_time + timeout + 10" by simp
        then show ?thesis using True sc Inr f by (subst wait_loop.simps) simp
      qed
    qed
  qed
qed


lemma wait_for_shutdown_time:
  "now (snd (wait_for_shutdown env c m v timeout ks)) \<le> now ks + timeout + 10"
  using wait_loop_time [of "now ks" ks env c m v timeout]
  by (simp add: wait_for_shutdown_def)

lemma wait_versions_time:
  "now ks \<le> t0 + 670 \<Longrightarrow> now (wait_versions env t0 s m vs ks) \<le> t0 + 670"
proof (induction vs arbitrary: ks)
  case Nil
  then show ?case by simp
next
  case (Cons v vs)
  show ?case
  proof (cases "wait_break env t0 ks")
    case True
    with Cons.prems show ?thesis by simp
  next
    case False
    then have "now ks \<le> t0 + 600" by (auto simp add: wait_break_def TOTAL_TIMEOUT_def)
    with wait_for_shutdown_time [of env s m v INDIVIDUAL_PROCESS_TIMEOUT ks]
    have "now (snd (wait_for_shutdown env s m v INDIVIDUAL_PROCESS_TIMEOUT ks)) \<le> t0 + 670"
      by (simp add: INDIVIDUAL_PROCESS_TIMEOUT_def)
    from Cons.IH [OF this] False show ?thesis by simp
  qed
qed

lemma wait_models_time:
  "now ks \<le> t0 + 670 \<Longrightarrow> now (wait_models env t0 s ms ks) \<le> t0 + 670"
proof (induction ms arbitrary: ks)
  case Nil
  then show ?case by simp
next
  case (Cons m ms)
  from wait_versions_time [OF Cons.prems]
  have "now (wait_versions env t0 s m VERSIONS ks) \<le> t0 + 670" .
  from Cons.IH [OF this] Cons.prems show ?case by simp
qed

lemma wait_symbols_time:
  "now ks \<le> t0 + 670 \<Longrightarrow> now (wait_symbols env t0 ss ks) \<le> t0 + 670"
proof (induction ss arbitrary: ks)
  case Nil
  then show ?case by simp
next
  case (Cons s ss)
  from wait_models_time [OF Cons.prems]
  have "now (wait_models env t0 s MODELS ks) \<le> t0 + 670" .
  from Cons.IH [OF this] Cons.prems show ?case by simp
qed

lemma try_body_time: "now (snd (try_body env ks0)) \<le> now ks0 + 670"
proof (cases "body_raises env")
  case (Some e)
  then show ?thesis by (simp add: try_body_def)
next
  case None
  define t0 where "t0 = now ks0"
  define ks1 where "ks1 = send_symbols env t0 SYMBOLS ks0"
  define ks2 where "ks2 = (if should_continue env ks1
                     then send_delete env ''ALL'' ''producer'' ''main'' ks1 else ks1)"
  define ks3 where "ks3 = (if should_continue env ks2
                     then wait_symbols env t0 SYMBOLS ks2 else ks2)"
  define ks4 where "ks4 = (if should_continue env ks3 \<and> now ks3 - t0 \<le> TOTAL_TIMEOUT
                     then snd (wait_for_shutdown env ''ALL'' ''producer'' ''main''
                                 INDIVIDUAL_PROCESS_TIMEOUT ks3)
                     else ks3)"
  define ks5 where "ks5 = (if should_continue env ks4
                     then (if cleanup_raises env then ks4 else ks4\<lparr>cleaned := True\<rparr>)
                     else ks4)"
  have b: "try_body env ks0 = (None, ks5)"
    using None by (simp add: try_body_def Let_def ks5_def ks4_def ks3_def ks2_def ks1_def t0_def)
  have "now ks1 \<le> t0 + 36"
    using send_symbols_time [of env t0 SYMBOLS ks0] by (simp add: ks1_def SYMBOLS_def t0_def)
  then have "now ks2 \<le> t0 + 42"
    using send_delete_time [of env "''ALL''" "''producer''" "''main''" ks1] by (simp add: ks2_def)
  then have "now ks2 \<le> t0 + 670" by simp
  then have k3: "now ks3 \<le> t0 + 670"
    using wait_symbols_time [of ks2 t0 env SYMBOLS] by (simp add: ks3_def)
  have k4: "now ks4 \<le> t0 + 670"
  proof (cases "should_continue env ks3 \<and> now ks3 - t0 \<le> TOTAL_TIMEOUT")
    case True
    then have "now ks3 \<le> t0 + 600" by (auto simp add: TOTAL_TIMEOUT_def)
    with wait_for_shutdown_time [of env "''ALL''" "''producer''" "''main''" INDIVIDUAL_PROCESS_TIMEOUT ks3]
    show ?thesis using True by (simp add: ks4_def INDIVIDUAL_PROCESS_TIMEOUT_def)
  next
    case False
    then have "ks4 = ks3" unfolding ks4_def by (simp only: if_False)
    with k3 show ?thesis by simp
  qed
  have "now ks5 = now ks4" by (simp add: ks5_def)
  with k4 b show ?thesis by (simp add: t0_def)
qed

lemma kill_all_main_time:
  "now (snd (kill_all_main env start)) \<le> start + 670"
proof -
  have "now (snd (try_body env \<lparr>now = start, stopped = False, sent = [], cleaned = False\<rparr>))
          \<le> start + 670"
    using try_body_time [of env "\<lparr>now = start, stopped = False, sent = [], cleaned = False\<rparr>"]
    by simp
  then show ?thesis
    by (cases "try_body env \<lparr>now = start, stopped = False, sent = [], cleaned = False\<rparr>")
       (auto simp add: kill_all_main_def Let_def split: option.splits)
qed

text \<open>
  What the \<open>try\<close>, \<open>except\<close> and \<open>finally\<close> of \<open>main\<close> achieve: once the logger is set up
  and the signal handlers are installed, every run ends with exit status 0, whatever the
  state files hold and however they change, whether or not a signal arrives,
  \<open>state_write\<close> or the cleanup raise, or an exception leaves the \<open>try\<close> block; and it
  ends within 670 seconds of its start, the global timeout of 600 seconds plus one
  last per-entity wait of 60 seconds and its last pass.
\<close>

lemma kill_all_exits_zero_after_setup:
  assumes "logger_setup env = None" and "signal_install env = None"
  shows "fst (kill_all_script env start) = 0"
    and "now (snd (kill_all_script env start)) \<le> start + 670"
proof -
  obtain r ks where tb: "try_body env \<lparr>now = start, stopped = False, sent = [], cleaned = False\<rparr>
                           = (r, ks)"
    by (cases "try_body env \<lparr>now = start, stopped = False, sent = [], cleaned = False\<rparr>")
  then have m: "kill_all_main env start = (SystemExit 0, ks)"
    using assms(2) by (simp add: kill_all_main_def Let_def finally_clause_def)
  with assms(1) show "fst (kill_all_script env start) = 0"
    by (simp add: kill_all_script_def)
  from m assms(1) have "snd (kill_all_script env start) = snd (kill_all_main env start)"
    by (simp add: kill_all_script_def)
  with kill_all_main_time [of env start]
  show "now (snd (kill_all_script env start)) \<le> start + 670" by simp
qed

lemma kill_all_exits_zero_example:
  "fst (kill_all_script
          \<lparr>logger_setup = None, signal_install = None,
           dir_at = (\<lambda>t. [''BTCUSDT_lightgbm_v1.json'' \<mapsto> Json (JArr [])]),
           signal_at = None, write_raises = (\<lambda>t. True), cleanup_raises = True,
           body_raises = None\<rparr> 0) = 0"
  by (rule kill_all_exits_zero_after_setup) simp_all

text \<open>
  C9: the code announces the claim (\<open>Always exit successfully to prevent zombie tasks\<close>,
  \<open>we want the script to exit successfully so Airflow doesn't mark it as failed\<close>) and
  the \<open>finally: sys.exit(0)\<close> of \<open>main\<close> is there to implement it, but the module-level
  \<open>logger = setup_logger("kill_all")\<close> runs before \<open>main\<close>, outside any \<open>try\<close>.  With a
  log directory that cannot be created, \<open>setup_logger\<close> raises \<open>PermissionError\<close>: the
  script ends with exit status 1, and no entity is sent \<open>delete\<close> although a consumer is
  running.
\<close>

theorem kill_all_logger_failure_exits_one:
  "kill_all_script
     \<lparr>logger_setup = Some (Exc ''PermissionError'' ''[Errno 13] Permission denied: /opt/airflow''),
      signal_install = None,
      dir_at = (\<lambda>t. [''BTCUSDT_lightgbm_v1.json'' \<mapsto>
                        Json (state_data ''BTCUSDT'' ''lightgbm'' ''v1'' ''running'' [])]),
      signal_at = None, write_raises = (\<lambda>t. False), cleanup_raises = False,
      body_raises = None\<rparr> 0
   = (1, \<lparr>now = 0, stopped = False, sent = [], cleaned = False\<rparr>)"
  by (simp add: kill_all_script_def)


section \<open>Properties of the version slots\<close>

lemma parent_snoc [simp]: "parent (d @ [n]) = d"
  by (simp add: parent_def)

lemma path_name_snoc [simp]: "path_name (d @ [n]) = n"
  by (simp add: path_name_def)






lemma model_dirs_differ [simp]:
  "get_model_dir base ty ''2'' \<noteq> get_model_dir base ty ''3''"
  "get_model_dir base ty ''3'' \<noteq> get_model_dir base ty ''2''"
  by (simp_all add: get_model_dir_def)






end
